theory Spec2Isabelle
  imports Complex_Main "HOL-Library.Word"
begin

unbundle bit_operations_syntax

section \<open>Magic Mouse 2 gesture driver: report decoder and gesture detector\<close>

text \<open>
  A shallow embedding of \<^verbatim>\<open>magic_mouse_gestures.py\<close>: the functions
  \<^verbatim>\<open>parse_touch\<close>, \<^verbatim>\<open>parse_report\<close> and \<^verbatim>\<open>detect_gesture\<close>.

  \<^item> A Python \<^verbatim>\<open>bytes\<close> object is a list of bytes, \<open>8 word list\<close>; indexing it gives
    an unbounded Python integer, here \<open>uint b :: int\<close>, and the bit operations of the
    source are the ones of \<open>int\<close>.
  \<^item> The dataclasses are records. The fields of \<^verbatim>\<open>Touch\<close> carry the prefix \<open>t_\<close>
    (\<^verbatim>\<open>id\<close> and \<^verbatim>\<open>size\<close> are constants of HOL already).
  \<^item> An exception is a value \<open>Inl e\<close> of the result type.
  \<^item> \<^verbatim>\<open>detect_gesture\<close> mutates its \<^verbatim>\<open>GestureState\<close> argument; the model returns the
    state after the call next to the returned value.
  \<^item> \<^verbatim>\<open>time.time()\<close> is read once at the head of \<^verbatim>\<open>detect_gesture\<close>; the model takes
    the value read as the argument \<open>now\<close>.
  \<^item> Timestamps are Python floats (IEEE 754 binary64). A finite float is the real number
    it denotes; a float literal and a float subtraction round to the nearest double,
    ties to even, as written out below.
\<close>

subsection \<open>Data model\<close>

datatype py_error = IndexError | TypeError

record Touch =
  t_id :: int
  t_x :: int
  t_y :: int
  t_major :: int
  t_minor :: int
  t_size :: int
  t_orientation :: int
  t_state :: int

record GestureState =
  start_x :: "int option"
  start_y :: "int option"
  start_time :: "real option"
  finger_count :: int
  last_gesture_time :: real

text \<open>The object built by \<^verbatim>\<open>GestureState()\<close> in \<^verbatim>\<open>main\<close>: the defaults of the dataclass.\<close>

definition GestureState_init :: GestureState where
  "GestureState_init =
     \<lparr>start_x = None, start_y = None, start_time = None,
      finger_count = 0, last_gesture_time = 0\<rparr>"

definition SWIPE_THRESHOLD :: int where
  "SWIPE_THRESHOLD = 200"

subsection \<open>Python floats\<close>

text \<open>
  The clock returns a finite double, and the float fields of \<^verbatim>\<open>GestureState\<close> hold
  \<^verbatim>\<open>0\<close> or a value of the clock, so a timestamp is a real number (the two zeros of
  binary64 are one value here: subtraction followed by comparison, the only float
  operations of the program, do not tell them apart). The result of a subtraction
  can be infinite, never a NaN.
\<close>

datatype pyfloat = Finite real | PosInf | NegInf

text \<open>\<open>expo x\<close> is the binary exponent of a positive \<open>x\<close>: \<open>2 ^ expo x \<le> x < 2 ^ (expo x + 1)\<close>.\<close>

function expo :: "real \<Rightarrow> int" where
  "expo x = (if x \<le> 0 then 0
             else if 2 \<le> x then expo (x / 2) + 1
             else if x < 1 then expo (x * 2) - 1
             else 0)"
  by pat_completeness auto
termination
proof (relation "measure (\<lambda>x. nat \<bar>\<lfloor>log 2 x\<rfloor>\<bar>)")
  show "wf (measure (\<lambda>x. nat \<bar>\<lfloor>log 2 x\<rfloor>\<bar>))" by simp
next
  fix x :: real
  assume "\<not> x \<le> 0" "2 \<le> x"
  then have "log 2 (x / 2) = log 2 x - 1" by (simp add: log_divide)
  moreover have "1 \<le> log 2 x" using \<open>2 \<le> x\<close> by (simp add: le_log_iff)
  then have "1 \<le> \<lfloor>log 2 x\<rfloor>" by linarith
  ultimately show "(x / 2, x) \<in> measure (\<lambda>x. nat \<bar>\<lfloor>log 2 x\<rfloor>\<bar>)"
    by simp
next
  fix x :: real
  assume "\<not> x \<le> 0" "\<not> 2 \<le> x" "x < 1"
  then have "log 2 (x * 2) = log 2 x + 1" by (simp add: log_mult)
  moreover have "log 2 x < 0" using \<open>\<not> x \<le> 0\<close> \<open>x < 1\<close> by simp
  then have "\<lfloor>log 2 x\<rfloor> \<le> - 1" by linarith
  ultimately show "(x * 2, x) \<in> measure (\<lambda>x. nat \<bar>\<lfloor>log 2 x\<rfloor>\<bar>)"
    by simp
qed

declare expo.simps [simp del]

definition pow2 :: "int \<Rightarrow> real" where
  "pow2 k = (if 0 \<le> k then 2 ^ nat k else 1 / 2 ^ nat (- k))"

text \<open>Rounding to the nearest integer, a tie going to the even one.\<close>

definition round_half_even :: "real \<Rightarrow> int" where
  "round_half_even y =
     (let f = \<lfloor>y\<rfloor>; d = y - of_int f
      in if d < 1 / 2 then f
         else if 1 / 2 < d then f + 1
         else if even f then f else f + 1)"

text \<open>
  The binary64 value of a real number, rounded to nearest, ties to even: 53 significant
  bits, so one unit in the last place is \<open>2 ^ (e - 52)\<close> at exponent \<open>e\<close>; the
  exponent is at least -1022 (below it the subnormal numbers have the spacing
  \<open>2 ^ -1074\<close>); a rounded magnitude of \<open>2 ^ 1024\<close> or more overflows to an infinity.
  This is the value of a float literal (\<^verbatim>\<open>0.4\<close> is \<open>round_double 0.4\<close>) and of an
  arithmetic result.
\<close>

definition round_double :: "real \<Rightarrow> pyfloat" where
  "round_double x =
     (if x = 0 then Finite 0
      else
        let e = max (expo \<bar>x\<bar>) (- 1022);
            ulp = pow2 (e - 52);
            r = of_int (round_half_even (x / ulp)) * ulp
        in if pow2 1024 \<le> \<bar>r\<bar> then (if 0 < x then PosInf else NegInf)
           else Finite r)"

text \<open>\<^verbatim>\<open>x - y\<close> on floats: the exact difference, rounded.\<close>

definition float_sub :: "real \<Rightarrow> real \<Rightarrow> pyfloat" where
  "float_sub x y = round_double (x - y)"

text \<open>\<^verbatim>\<open>a < b\<close> on floats; \<^verbatim>\<open>a > b\<close> is \<open>float_less b a\<close>.\<close>

fun float_less :: "pyfloat \<Rightarrow> pyfloat \<Rightarrow> bool" where
  "float_less (Finite a) (Finite b) = (a < b)"
| "float_less (Finite a) PosInf = True"
| "float_less (Finite a) NegInf = False"
| "float_less PosInf b = False"
| "float_less NegInf (Finite b) = True"
| "float_less NegInf PosInf = True"
| "float_less NegInf NegInf = False"

text \<open>\<^verbatim>\<open>a <= b\<close> on floats.\<close>

fun float_le :: "pyfloat \<Rightarrow> pyfloat \<Rightarrow> bool" where
  "float_le (Finite a) (Finite b) = (a \<le> b)"
| "float_le (Finite a) PosInf = True"
| "float_le (Finite a) NegInf = False"
| "float_le PosInf (Finite b) = False"
| "float_le PosInf PosInf = True"
| "float_le PosInf NegInf = False"
| "float_le NegInf b = True"

definition SWIPE_TIME_MAX :: pyfloat where
  "SWIPE_TIME_MAX = round_double 0.4"

subsection \<open>Touch decoder\<close>

text \<open>
  \<^verbatim>\<open>tdata = data[offset:offset + 8]\<close> never raises: a slice is cut to the bytes that
  exist. Every index \<^verbatim>\<open>tdata[0]\<close> .. \<^verbatim>\<open>tdata[7]\<close> is read before the function
  returns and nothing is written, so the function raises IndexError exactly when the
  slice has fewer than 8 bytes. The one caller passes the offsets \<open>14 + i * 8\<close>,
  so \<open>offset\<close> is a natural number.
\<close>

definition parse_touch :: "8 word list \<Rightarrow> nat \<Rightarrow> py_error + Touch" where
  "parse_touch data offset =
     (let tdata = take 8 (drop offset data) in
      if length tdata < 8 then Inl IndexError
      else
        let x = uint (tdata ! 0) OR push_bit 8 (uint (tdata ! 1) AND 0x0F);
            y = uint (tdata ! 2) OR push_bit 4 (uint (tdata ! 1) AND 0xF0);
            major = uint (tdata ! 3);
            minor = uint (tdata ! 4);
            size = uint (tdata ! 5) AND 0x3F;
            id_lsb = drop_bit 6 (uint (tdata ! 5)) AND 0x03;
            id_msb = uint (tdata ! 6) AND 0x03;
            touch_id = id_lsb OR push_bit 2 id_msb;
            orientation = drop_bit 2 (uint (tdata ! 6)) AND 0x3F;
            state = drop_bit 4 (uint (tdata ! 7)) AND 0x0F
        in Inr \<lparr>t_id = touch_id, t_x = x, t_y = y,
                t_major = major, t_minor = minor,
                t_size = size, t_orientation = orientation,
                t_state = state\<rparr>)"

subsection \<open>Report decoder\<close>

text \<open>
  The body of \<^verbatim>\<open>for i in range(num_fingers)\<close>, as a recursion over the indices
  still to visit, with the list \<^verbatim>\<open>touches\<close> built so far.
\<close>

fun parse_slots :: "8 word list \<Rightarrow> nat list \<Rightarrow> Touch list \<Rightarrow> py_error + Touch list" where
  "parse_slots data [] touches = Inr touches"
| "parse_slots data (i # rest) touches =
     (let offset = 14 + (i * 8) in
      if offset + 8 \<le> length data then
        (case parse_touch data offset of
           Inl e \<Rightarrow> Inl e
         | Inr touch \<Rightarrow>
             if t_state touch > 0 \<or> t_size touch > 0
             then parse_slots data rest (touches @ [touch])
             else parse_slots data rest touches)
      else parse_slots data rest touches)"

definition parse_report :: "8 word list \<Rightarrow> py_error + Touch list" where
  "parse_report data =
     (if length data < 14 then Inr []
      else
        let num_fingers = (length data - 14) div 8
        in parse_slots data [0..<num_fingers] [])"

subsection \<open>Gesture detector\<close>

text \<open>
  \<^verbatim>\<open>state.start_x is None\<close> is the only test for an anchor; with \<^verbatim>\<open>start_x\<close> set and
  \<^verbatim>\<open>start_y\<close> or \<^verbatim>\<open>start_time\<close> still \<^verbatim>\<open>None\<close>, the subtraction raises TypeError
  (before any field is written).
\<close>

definition detect_gesture ::
    "Touch list \<Rightarrow> real \<Rightarrow> GestureState \<Rightarrow> py_error + (string option \<times> GestureState)" where
  "detect_gesture touches now state =
     (if float_less (float_sub now (last_gesture_time state)) (round_double 0.5)
      then Inr (None, state)
      else if touches = [] then
        Inr (None, state\<lparr>start_x := None, start_y := None, start_time := None,
                         finger_count := 0\<rparr>)
      else
        let avg_x = sum_list (map t_x touches) div int (length touches);
            avg_y = sum_list (map t_y touches) div int (length touches)
        in case start_x state of
             None \<Rightarrow>
               Inr (None, state\<lparr>start_x := Some avg_x, start_y := Some avg_y,
                                start_time := Some now,
                                finger_count := int (length touches)\<rparr>)
           | Some sx \<Rightarrow>
              (case start_y state of
                 None \<Rightarrow> Inl TypeError
               | Some sy \<Rightarrow>
                  (case start_time state of
                     None \<Rightarrow> Inl TypeError
                   | Some st \<Rightarrow>
                      let delta_x = avg_x - sx;
                          delta_y = avg_y - sy;
                          elapsed = float_sub now st;
                          no_gesture =
                            (if float_less SWIPE_TIME_MAX elapsed then
                               Inr (None, state\<lparr>start_x := Some avg_x, start_y := Some avg_y,
                                                start_time := Some now\<rparr>)
                             else Inr (None, state))
                      in if float_less elapsed SWIPE_TIME_MAX \<and> \<bar>delta_x\<bar> > SWIPE_THRESHOLD then
                           if \<bar>delta_x\<bar> > \<bar>delta_y\<bar> * 2 then
                             Inr (Some (if delta_x > 0 then ''swipe_right'' else ''swipe_left''),
                                  state\<lparr>start_x := None, start_y := None, start_time := None,
                                         last_gesture_time := now\<rparr>)
                           else no_gesture
                         else no_gesture)))"

text \<open>
  Successive calls of \<^verbatim>\<open>detect_gesture\<close> on the one \<^verbatim>\<open>GestureState\<close> object, as the
  loop of \<^verbatim>\<open>main\<close> makes them: each call has its touch list and its clock value. An
  exception ends the run.
\<close>

fun detect_calls :: "(Touch list \<times> real) list \<Rightarrow> GestureState \<Rightarrow> py_error + GestureState" where
  "detect_calls [] state = Inr state"
| "detect_calls ((touches, now) # calls) state =
     (case detect_gesture touches now state of
        Inl e \<Rightarrow> Inl e
      | Inr (g, state') \<Rightarrow> detect_calls calls state')"

text \<open>
  The three anchor fields are meant as one optional triple: they are all \<^verbatim>\<open>None\<close> or
  all set.
\<close>

definition anchor_consistent :: "GestureState \<Rightarrow> bool" where
  "anchor_consistent state \<longleftrightarrow>
     (start_x state = None \<and> start_y state = None \<and> start_time state = None)
     \<or> (start_x state \<noteq> None \<and> start_y state \<noteq> None \<and> start_time state \<noteq> None)"

section \<open>Properties\<close>

subsection \<open>Ranges of the bit fields\<close>

lemma and_mask_range: "0 \<le> m \<Longrightarrow> 0 \<le> k AND m \<and> k AND m \<le> (m::int)"
  by simp

lemma uint8_range: "0 \<le> uint (b :: 8 word) \<and> uint b \<le> 255"
  using uint_lt2p [of b] by simp

lemma or_range12:
  fixes a b :: int
  assumes "0 \<le> a" "a \<le> 255" "0 \<le> b" "b \<le> 4095"
  shows "0 \<le> a OR b \<and> a OR b \<le> 4095"
proof -
  have "a OR b < 2 ^ 12" using assms by (intro OR_upper) simp_all
  then show ?thesis using assms by simp
qed

lemma push_bit_range:
  fixes k :: int
  assumes "0 \<le> k" "k \<le> c" "c * 2 ^ n \<le> m"
  shows "0 \<le> push_bit n k \<and> push_bit n k \<le> m"
proof -
  have "k * 2 ^ n \<le> c * 2 ^ n" using assms(2) by (intro mult_right_mono) simp_all
  then have "k * 2 ^ n \<le> m" using assms(3) by (rule order_trans)
  then show ?thesis using assms(1) by (simp add: push_bit_eq_mult)
qed

lemma x_range: "0 \<le> uint (b0 :: 8 word) OR push_bit 8 (uint (b1 :: 8 word) AND 0x0F)
   \<and> uint b0 OR push_bit 8 (uint b1 AND 0x0F) \<le> 4095"
proof -
  have "0 \<le> uint b1 AND 15 \<and> uint b1 AND 15 \<le> 15" by (rule and_mask_range) simp
  then have "0 \<le> push_bit 8 (uint b1 AND 15) \<and> push_bit 8 (uint b1 AND 15) \<le> 4095"
    by (intro push_bit_range [where c = 15]) simp_all
  with uint8_range [of b0] show ?thesis by (intro or_range12) simp_all
qed

lemma y_range: "0 \<le> uint (b2 :: 8 word) OR push_bit 4 (uint (b1 :: 8 word) AND 0xF0)
   \<and> uint b2 OR push_bit 4 (uint b1 AND 0xF0) \<le> 4095"
proof -
  have "0 \<le> uint b1 AND 240 \<and> uint b1 AND 240 \<le> 240" by (rule and_mask_range) simp
  then have "0 \<le> push_bit 4 (uint b1 AND 240) \<and> push_bit 4 (uint b1 AND 240) \<le> 4095"
    by (intro push_bit_range [where c = 240]) simp_all
  with uint8_range [of b2] show ?thesis by (intro or_range12) simp_all
qed

lemma id_range: "0 \<le> (drop_bit 6 (uint (b5 :: 8 word)) AND 0x03) OR push_bit 2 (uint (b6 :: 8 word) AND 0x03)
   \<and> (drop_bit 6 (uint b5) AND 0x03) OR push_bit 2 (uint b6 AND 0x03) \<le> 15"
proof -
  have a: "0 \<le> drop_bit 6 (uint b5) AND 3 \<and> drop_bit 6 (uint b5) AND 3 \<le> 3"
    by (rule and_mask_range) simp
  have "0 \<le> uint b6 AND 3 \<and> uint b6 AND 3 \<le> 3" by (rule and_mask_range) simp
  then have b: "0 \<le> push_bit 2 (uint b6 AND 3) \<and> push_bit 2 (uint b6 AND 3) \<le> 12"
    by (intro push_bit_range [where c = 3]) simp_all
  have "(drop_bit 6 (uint b5) AND 3) OR push_bit 2 (uint b6 AND 3) < 2 ^ 4"
    using a b by (intro OR_upper) simp_all
  then show ?thesis using a b by simp
qed

subsection \<open>The loop of the report decoder\<close>

lemma parse_touch_in_bounds:
  "offset + 8 \<le> length data \<Longrightarrow> \<exists>t. parse_touch data offset = Inr t"
  by (simp add: parse_touch_def Let_def)

lemma parse_touch_take:
  "offset + 8 \<le> n \<Longrightarrow> parse_touch (take n data) offset = parse_touch data offset"
  by (simp add: parse_touch_def drop_take take_take min_def)

lemma parse_slots_eq:
  "\<forall>i\<in>set idxs. 14 + (i * 8) + 8 \<le> length data \<Longrightarrow>
   parse_slots data idxs acc =
     Inr (acc @ filter (\<lambda>t. t_state t > 0 \<or> t_size t > 0)
                  (map (\<lambda>i. projr (parse_touch data (14 + (i * 8)))) idxs))"
proof (induction idxs arbitrary: acc)
  case Nil
  then show ?case by simp
next
  case (Cons i rest)
  from Cons.prems have inb: "14 + (i * 8) + 8 \<le> length data" by simp
  then obtain t where t: "parse_touch data (14 + (i * 8)) = Inr t"
    using parse_touch_in_bounds by blast
  from Cons.prems have "\<forall>j\<in>set rest. 14 + (j * 8) + 8 \<le> length data" by simp
  note IH = Cons.IH [OF this]
  show ?case using inb t by (simp add: IH)
qed

lemma slot_in_bounds:
  "14 \<le> (n::nat) \<Longrightarrow> i < (n - 14) div 8 \<Longrightarrow> 14 + (i * 8) + 8 \<le> n"
  by arith

lemma parse_report_eq:
  "14 \<le> length data \<Longrightarrow>
   parse_report data =
     Inr (filter (\<lambda>t. t_state t > 0 \<or> t_size t > 0)
            (map (\<lambda>i. projr (parse_touch data (14 + (i * 8))))
               [0..<(length data - 14) div 8]))"
proof -
  assume len: "14 \<le> length data"
  have "\<forall>i\<in>set [0..<(length data - 14) div 8]. 14 + (i * 8) + 8 \<le> length data"
    using slot_in_bounds [OF len] by simp
  from parse_slots_eq [OF this, of "[]"] len show ?thesis
    by (simp add: parse_report_def)
qed

lemma parse_report_short: "length data < 14 \<Longrightarrow> parse_report data = Inr []"
  by (simp add: parse_report_def)

subsection \<open>C2: the touch decoder is total and extracts the documented bit fields\<close>

text \<open>
  Claim C2. Whenever the slice \<^verbatim>\<open>data[offset:offset + 8]\<close> is an 8-byte block
  \<open>b0 .. b7\<close> (whatever precedes and follows it in the buffer), \<^verbatim>\<open>parse_touch\<close>
  returns a \<^verbatim>\<open>Touch\<close> and does not raise; its fields are
  x = b0 | ((b1 & 0x0F) << 8), y = b2 | ((b1 & 0xF0) << 4), major = b3, minor = b4,
  size = b5 & 0x3F, id = ((b5 >> 6) & 0x03) | ((b6 & 0x03) << 2),
  orientation = (b6 >> 2) & 0x3F, state = (b7 >> 4) & 0x0F; and so x and y lie in
  0..4095, major and minor in 0..255, size and orientation in 0..63, id and state in
  0..15.
\<close>

theorem parse_touch_total_fields:
  "\<exists>t. parse_touch (pre @ [b0, b1, b2, b3, b4, b5, b6, b7] @ post) (length pre) = Inr t
     \<and> t_x t = uint b0 OR push_bit 8 (uint b1 AND 0x0F)
     \<and> t_y t = uint b2 OR push_bit 4 (uint b1 AND 0xF0)
     \<and> t_major t = uint b3
     \<and> t_minor t = uint b4
     \<and> t_size t = uint b5 AND 0x3F
     \<and> t_id t = (drop_bit 6 (uint b5) AND 0x03) OR push_bit 2 (uint b6 AND 0x03)
     \<and> t_orientation t = drop_bit 2 (uint b6) AND 0x3F
     \<and> t_state t = drop_bit 4 (uint b7) AND 0x0F
     \<and> 0 \<le> t_x t \<and> t_x t \<le> 4095
     \<and> 0 \<le> t_y t \<and> t_y t \<le> 4095
     \<and> 0 \<le> t_major t \<and> t_major t \<le> 255
     \<and> 0 \<le> t_minor t \<and> t_minor t \<le> 255
     \<and> 0 \<le> t_size t \<and> t_size t \<le> 63
     \<and> 0 \<le> t_orientation t \<and> t_orientation t \<le> 63
     \<and> 0 \<le> t_id t \<and> t_id t \<le> 15
     \<and> 0 \<le> t_state t \<and> t_state t \<le> 15"
proof -
  let ?t = "\<lparr>t_id = (drop_bit 6 (uint b5) AND 0x03) OR push_bit 2 (uint b6 AND 0x03),
          t_x = uint b0 OR push_bit 8 (uint b1 AND 0x0F),
          t_y = uint b2 OR push_bit 4 (uint b1 AND 0xF0),
          t_major = uint b3, t_minor = uint b4,
          t_size = uint b5 AND 0x3F,
          t_orientation = drop_bit 2 (uint b6) AND 0x3F,
          t_state = drop_bit 4 (uint b7) AND 0x0F\<rparr>"
  have run: "parse_touch (pre @ [b0, b1, b2, b3, b4, b5, b6, b7] @ post) (length pre) = Inr ?t"
    by (simp add: parse_touch_def)
  have sz: "0 \<le> uint b5 AND 63 \<and> uint b5 AND 63 \<le> 63"
    by (rule and_mask_range) simp
  have ori: "0 \<le> drop_bit 2 (uint b6) AND 63 \<and> drop_bit 2 (uint b6) AND 63 \<le> 63"
    by (rule and_mask_range) simp
  have st: "0 \<le> drop_bit 4 (uint b7) AND 15 \<and> drop_bit 4 (uint b7) AND 15 \<le> 15"
    by (rule and_mask_range) simp
  have flds: "t_x ?t = uint b0 OR push_bit 8 (uint b1 AND 0x0F)
     \<and> t_y ?t = uint b2 OR push_bit 4 (uint b1 AND 0xF0)
     \<and> t_major ?t = uint b3
     \<and> t_minor ?t = uint b4
     \<and> t_size ?t = uint b5 AND 0x3F
     \<and> t_id ?t = (drop_bit 6 (uint b5) AND 0x03) OR push_bit 2 (uint b6 AND 0x03)
     \<and> t_orientation ?t = drop_bit 2 (uint b6) AND 0x3F
     \<and> t_state ?t = drop_bit 4 (uint b7) AND 0x0F"
    by simp
  have rng: "0 \<le> t_x ?t \<and> t_x ?t \<le> 4095
     \<and> 0 \<le> t_y ?t \<and> t_y ?t \<le> 4095
     \<and> 0 \<le> t_major ?t \<and> t_major ?t \<le> 255
     \<and> 0 \<le> t_minor ?t \<and> t_minor ?t \<le> 255
     \<and> 0 \<le> t_size ?t \<and> t_size ?t \<le> 63
     \<and> 0 \<le> t_orientation ?t \<and> t_orientation ?t \<le> 63
     \<and> 0 \<le> t_id ?t \<and> t_id ?t \<le> 15
     \<and> 0 \<le> t_state ?t \<and> t_state ?t \<le> 15"
    using x_range [of b0 b1] y_range [of b2 b1] uint8_range [of b3] uint8_range [of b4]
      sz ori id_range [of b5 b6] st
    by simp
  from run flds rng show ?thesis by blast
qed

theorem parse_touch_total_fields_witness:
  "\<exists>t. parse_touch [0xEE, 0x52, 0xF2, 10, 8, 0x9B, 0x47, 0x40] 0 = Inr t
     \<and> t_x t = 750 \<and> t_y t = 1522 \<and> t_major t = 10 \<and> t_minor t = 8
     \<and> t_size t = 27 \<and> t_id t = 14 \<and> t_orientation t = 17 \<and> t_state t = 4"
  using parse_touch_total_fields [of "[]" "0xEE" "0x52" "0xF2" 10 8 "0x9B" "0x47" "0x40" "[]"]
  by simp blast

subsection \<open>C3: which blocks of a report are decoded\<close>

lemma map_Inr_filter_projr:
  "\<forall>i\<in>set idxs. \<exists>t. g i = Inr t \<Longrightarrow>
   map Inr (filter P (map (\<lambda>i. projr (g i)) idxs)) =
     filter (\<lambda>r. case r of Inl e \<Rightarrow> False | Inr t \<Rightarrow> P t) (map g idxs)"
  by (induction idxs) auto

lemma parse_report_truncate:
  assumes len: "14 \<le> length data"
  shows "parse_report (take (14 + 8 * ((length data - 14) div 8)) data) = parse_report data"
proof -
  let ?m = "(length data - 14) div 8"
  let ?n = "14 + 8 * ?m"
  have n_le: "?n \<le> length data" using len by arith
  then have ln: "length (take ?n data) = ?n" by simp
  have m: "(?n - 14) div 8 = ?m" by simp
  have same: "\<And>i. i < ?m \<Longrightarrow>
      parse_touch (take ?n data) (14 + (i * 8)) = parse_touch data (14 + (i * 8))"
    by (rule parse_touch_take) arith
  have "14 \<le> length (take ?n data)" using ln by simp
  from parse_report_eq [OF this] have
    "parse_report (take ?n data) =
       Inr (filter (\<lambda>t. t_state t > 0 \<or> t_size t > 0)
              (map (\<lambda>i. projr (parse_touch (take ?n data) (14 + (i * 8)))) [0..<?m]))"
    unfolding ln m .
  also have "(map (\<lambda>i. projr (parse_touch (take ?n data) (14 + (i * 8)))) [0..<?m])
      = (map (\<lambda>i. projr (parse_touch data (14 + (i * 8)))) [0..<?m])"
    by (rule map_cong) (simp_all add: same)
  also have "Inr (filter (\<lambda>t. t_state t > 0 \<or> t_size t > 0)
              (map (\<lambda>i. projr (parse_touch data (14 + (i * 8)))) [0..<?m])) = parse_report data"
    using parse_report_eq [OF len] by simp
  finally show ?thesis .
qed

lemma parse_report_all_active:
  assumes len: "length data = 14 + 8 * k"
      and act: "\<forall>i<k. \<exists>t. parse_touch data (14 + 8 * i) = Inr t \<and> (t_state t > 0 \<or> t_size t > 0)"
  shows "\<exists>ts. parse_report data = Inr ts \<and> length ts = k
            \<and> (\<forall>i<k. parse_touch data (14 + 8 * i) = Inr (ts ! i))"
proof -
  let ?f = "\<lambda>i. projr (parse_touch data (14 + (i * 8)))"
  have k: "(length data - 14) div 8 = k" using len by simp
  have "14 \<le> length data" using len by simp
  from parse_report_eq [OF this]
  have run: "parse_report data = Inr (filter (\<lambda>t. t_state t > 0 \<or> t_size t > 0) (map ?f [0..<k]))"
    unfolding k .
  have inr: "\<And>i. i < k \<Longrightarrow> parse_touch data (14 + 8 * i) = Inr (?f i)"
    using act by (auto simp: mult.commute)
  have "\<forall>t\<in>set (map ?f [0..<k]). t_state t > 0 \<or> t_size t > 0"
    using act by (auto simp: mult.commute)
  then have "filter (\<lambda>t. t_state t > 0 \<or> t_size t > 0) (map ?f [0..<k]) = map ?f [0..<k]"
    by (rule filter_True)
  with run have run': "parse_report data = Inr (map ?f [0..<k])" by simp
  show ?thesis
    using run' inr by simp
qed

text \<open>
  Claim C3. A buffer shorter than 14 bytes gives the empty list. A buffer of length
  14 + 8k whose k blocks are all active (state > 0 or size > 0) gives exactly k
  samples, the i-th being \<^verbatim>\<open>parse_touch\<close> of the block at offset 14 + 8i: offset
  order, nothing dropped for a repeated id. For every length from 14 on, the blocks
  considered are those of the indices below (length - 14) div 8, each kept when it is
  active, and the bytes after the last whole block do not change the result.
\<close>

theorem parse_report_lengths:
  "(length data < 14 \<longrightarrow> parse_report data = Inr [])
   \<and> (length data = 14 + 8 * k
        \<and> (\<forall>i<k. \<exists>t. parse_touch data (14 + 8 * i) = Inr t \<and> (t_state t > 0 \<or> t_size t > 0))
      \<longrightarrow> (\<exists>ts. parse_report data = Inr ts \<and> length ts = k
                \<and> (\<forall>i<k. parse_touch data (14 + 8 * i) = Inr (ts ! i))))
   \<and> (14 \<le> length data
      \<longrightarrow> (\<exists>ts. parse_report data = Inr ts
                \<and> map Inr ts =
                    filter (\<lambda>r. case r of Inl e \<Rightarrow> False
                                 | Inr t \<Rightarrow> t_state t > 0 \<or> t_size t > 0)
                      (map (\<lambda>i. parse_touch data (14 + 8 * i))
                         [0..<(length data - 14) div 8]))
          \<and> parse_report (take (14 + 8 * ((length data - 14) div 8)) data)
              = parse_report data)"
proof (intro conjI impI)
  assume "length data < 14"
  then show "parse_report data = Inr []" by (rule parse_report_short)
next
  assume "length data = 14 + 8 * k
        \<and> (\<forall>i<k. \<exists>t. parse_touch data (14 + 8 * i) = Inr t \<and> (t_state t > 0 \<or> t_size t > 0))"
  then show "\<exists>ts. parse_report data = Inr ts \<and> length ts = k
                \<and> (\<forall>i<k. parse_touch data (14 + 8 * i) = Inr (ts ! i))"
    using parse_report_all_active by blast
next
  assume len: "14 \<le> length data"
  let ?m = "(length data - 14) div 8"
  have "\<forall>i\<in>set [0..<?m]. \<exists>t. parse_touch data (14 + 8 * i) = Inr t"
    using slot_in_bounds [OF len] parse_touch_in_bounds [of _ data]
    by (simp add: mult.commute)
  from map_Inr_filter_projr [OF this, of "\<lambda>t. t_state t > 0 \<or> t_size t > 0"]
  show "\<exists>ts. parse_report data = Inr ts
                \<and> map Inr ts =
                    filter (\<lambda>r. case r of Inl e \<Rightarrow> False
                                 | Inr t \<Rightarrow> t_state t > 0 \<or> t_size t > 0)
                      (map (\<lambda>i. parse_touch data (14 + 8 * i)) [0..<?m])"
    using parse_report_eq [OF len] by (simp add: mult.commute)
next
  assume "14 \<le> length data"
  then show "parse_report (take (14 + 8 * ((length data - 14) div 8)) data) = parse_report data"
    by (rule parse_report_truncate)
qed

theorem parse_report_lengths_witness:
  "parse_report [1, 2, 3] = Inr []
   \<and> (\<exists>ts. parse_report ([0, 0, 0, 0, 0, 0, 0, 0, 0, 0, 0, 0, 0, 0,
                            0xEE, 0x52, 0xF2, 10, 8, 0x9B, 0x47, 0x40,
                            0xEE, 0x52, 0xF2, 10, 8, 0x9B, 0x47, 0x40]) = Inr ts
          \<and> length ts = 2 \<and> t_id (ts ! 0) = 14 \<and> t_id (ts ! 1) = 14
          \<and> t_x (ts ! 0) = 750 \<and> t_x (ts ! 1) = 750)
   \<and> parse_report ([0, 0, 0, 0, 0, 0, 0, 0, 0, 0, 0, 0, 0, 0,
                     0xEE, 0x52, 0xF2, 10, 8, 0x9B, 0x47, 0x40,
                     0xEE, 0x52, 0xF2, 10, 8, 0x9B, 0x47, 0x40, 7, 7, 7])
       = parse_report ([0, 0, 0, 0, 0, 0, 0, 0, 0, 0, 0, 0, 0, 0,
                     0xEE, 0x52, 0xF2, 10, 8, 0x9B, 0x47, 0x40,
                     0xEE, 0x52, 0xF2, 10, 8, 0x9B, 0x47, 0x40])"
proof -
  let ?buf = "[0, 0, 0, 0, 0, 0, 0, 0, 0, 0, 0, 0, 0, 0,
               0xEE, 0x52, 0xF2, 10, 8, 0x9B, 0x47, 0x40,
               0xEE, 0x52, 0xF2, 10, 8, 0x9B, 0x47, 0x40] :: 8 word list"
  have short: "parse_report [1, 2, 3] = Inr []"
    using parse_report_lengths [of "[1, 2, 3]" 0] by simp
  have p0: "parse_touch ?buf 14 = Inr \<lparr>t_id = 14, t_x = 750, t_y = 1522, t_major = 10,
      t_minor = 8, t_size = 27, t_orientation = 17, t_state = 4\<rparr>"
    by (simp add: parse_touch_def)
  have p1: "parse_touch ?buf 22 = Inr \<lparr>t_id = 14, t_x = 750, t_y = 1522, t_major = 10,
      t_minor = 8, t_size = 27, t_orientation = 17, t_state = 4\<rparr>"
    by (simp add: parse_touch_def)
  have act: "\<forall>i<2. \<exists>t. parse_touch ?buf (14 + 8 * i) = Inr t \<and> (t_state t > 0 \<or> t_size t > 0)"
    using p0 p1 by (simp add: less_2_cases_iff)
  have "length ?buf = 14 + 8 * 2" by simp
  with act parse_report_lengths [of ?buf 2]
  obtain ts where ts: "parse_report ?buf = Inr ts" "length ts = 2"
      "\<forall>i<2. parse_touch ?buf (14 + 8 * i) = Inr (ts ! i)"
    by blast
  from ts(3) have "parse_touch ?buf 14 = Inr (ts ! 0)" "parse_touch ?buf 22 = Inr (ts ! 1)"
    by (simp_all add: less_2_cases_iff)
  with p0 p1 have "t_id (ts ! 0) = 14 \<and> t_id (ts ! 1) = 14 \<and> t_x (ts ! 0) = 750 \<and> t_x (ts ! 1) = 750"
    by simp
  with ts have two: "\<exists>ts. parse_report ?buf = Inr ts
          \<and> length ts = 2 \<and> t_id (ts ! 0) = 14 \<and> t_id (ts ! 1) = 14
          \<and> t_x (ts ! 0) = 750 \<and> t_x (ts ! 1) = 750"
    by blast
  have trunc: "parse_report (?buf @ [7, 7, 7]) = parse_report ?buf"
    using parse_report_lengths [of "?buf @ [7, 7, 7]" 0] by simp
  from short two trunc show ?thesis by simp
qed

subsection \<open>C4, C9: the filter of the report decoder, and its totality\<close>

lemma parse_touch_error_iff:
  "parse_touch data offset = Inl e \<longleftrightarrow> e = IndexError \<and> \<not> offset + 8 \<le> length data"
  by (auto simp: parse_touch_def Let_def)

lemma parse_report_take_prefix:
  assumes len: "14 \<le> length data"
  shows "\<exists>ts' rest. parse_report (take n data) = Inr ts'
           \<and> parse_report data = Inr (ts' @ rest)"
proof (cases "n < 14")
  case True
  then have "parse_report (take n data) = Inr []" by (simp add: parse_report_short)
  with parse_report_eq [OF len] show ?thesis by simp
next
  case False
  let ?P = "\<lambda>t. t_state t > 0 \<or> t_size t > 0"
  let ?d = "take n data"
  let ?m = "(length data - 14) div 8"
  let ?m' = "(length ?d - 14) div 8"
  from False len have len': "14 \<le> length ?d" by simp
  have le: "?m' \<le> ?m" by (intro div_le_mono diff_le_mono) simp
  have bound: "\<And>i. i < ?m' \<Longrightarrow> 14 + (i * 8) + 8 \<le> n"
    using slot_in_bounds [OF len'] by simp
  have same: "map (\<lambda>i. projr (parse_touch ?d (14 + (i * 8)))) [0..<?m']
      = map (\<lambda>i. projr (parse_touch data (14 + (i * 8)))) [0..<?m']"
    by (rule map_cong) (simp_all add: parse_touch_take [OF bound])
  have split: "[0..<?m] = [0..<?m'] @ [?m'..<?m]"
    using le by (metis le_add_diff_inverse upt_add_eq_append zero_le)
  have a: "parse_report ?d = Inr (filter ?P (map (\<lambda>i. projr (parse_touch data (14 + (i * 8)))) [0..<?m']))"
    by (simp only: parse_report_eq [OF len'] same)
  have b: "parse_report data = Inr (filter ?P (map (\<lambda>i. projr (parse_touch data (14 + (i * 8)))) [0..<?m'])
     @ filter ?P (map (\<lambda>i. projr (parse_touch data (14 + (i * 8)))) [?m'..<?m]))"
    using parse_report_eq [OF len] by (subst (asm) split) simp
  from a b show ?thesis by blast
qed

text \<open>
  Claim C4. No sample with state = 0 and size = 0 is in a result of \<^verbatim>\<open>parse_report\<close>;
  the sample decoded from a slot (an index below (length - 14) div 8 of a buffer of at
  least 14 bytes) is in the result if and only if its state > 0 or its size > 0.
\<close>

theorem parse_report_filter:
  "parse_report data = Inr ts \<Longrightarrow>
     (\<forall>t\<in>set ts. \<not> (t_state t = 0 \<and> t_size t = 0))
   \<and> (\<forall>i t. 14 \<le> length data \<and> i < (length data - 14) div 8
                \<and> parse_touch data (14 + 8 * i) = Inr t
        \<longrightarrow> (t \<in> set ts \<longleftrightarrow> (t_state t > 0 \<or> t_size t > 0)))"
proof (cases "length data < 14")
  case True
  assume "parse_report data = Inr ts"
  with True have "ts = []" by (simp add: parse_report_short)
  with True show ?thesis by simp
next
  case False
  assume run: "parse_report data = Inr ts"
  let ?f = "\<lambda>i. projr (parse_touch data (14 + (i * 8)))"
  from False have len: "14 \<le> length data" by simp
  from parse_report_eq [OF len] run
  have ts: "ts = filter (\<lambda>t. t_state t > 0 \<or> t_size t > 0) (map ?f [0..<(length data - 14) div 8])"
    by simp
  have one: "\<forall>t\<in>set ts. \<not> (t_state t = 0 \<and> t_size t = 0)"
    by (subst ts) auto
  have two: "\<forall>i t. 14 \<le> length data \<and> i < (length data - 14) div 8
                \<and> parse_touch data (14 + 8 * i) = Inr t
        \<longrightarrow> (t \<in> set ts \<longleftrightarrow> (t_state t > 0 \<or> t_size t > 0))"
  proof (intro allI impI)
    fix i t
    assume h: "14 \<le> length data \<and> i < (length data - 14) div 8
                \<and> parse_touch data (14 + 8 * i) = Inr t"
    then have "?f i = t" by (simp add: mult.commute)
    with h have "t \<in> set (map ?f [0..<(length data - 14) div 8])" by force
    then show "t \<in> set ts \<longleftrightarrow> (t_state t > 0 \<or> t_size t > 0)"
      by (subst ts) simp
  qed
  from one two show ?thesis by blast
qed

text \<open>
  Claim C9. For a buffer of any length \<^verbatim>\<open>parse_report\<close> returns a list and raises
  nothing. It returns at most (length - 14) div 8 samples. Every offset 14 + 8i it
  hands to \<^verbatim>\<open>parse_touch\<close> has offset + 8 \<le> length, which is exactly the condition
  under which \<^verbatim>\<open>parse_touch\<close> does not raise. A buffer cut short at any length
  \<open>n\<close> gives a prefix of the samples of the whole buffer, not an error. (The model
  is a function of the buffer alone: nothing else is read or written.)
\<close>

theorem parse_report_total:
  "\<exists>ts. parse_report data = Inr ts
      \<and> length ts \<le> (length data - 14) div 8
      \<and> (\<forall>i. 14 \<le> length data \<and> i < (length data - 14) div 8
             \<longrightarrow> 14 + (i * 8) + 8 \<le> length data
                \<and> (\<exists>t. parse_touch data (14 + (i * 8)) = Inr t))
      \<and> (\<forall>offset e. parse_touch data offset = Inl e
             \<longleftrightarrow> e = IndexError \<and> \<not> offset + 8 \<le> length data)
      \<and> (\<forall>n. \<exists>ts' rest. parse_report (take n data) = Inr ts' \<and> ts = ts' @ rest)"
proof (cases "length data < 14")
  case True
  then have run: "parse_report data = Inr []" by (rule parse_report_short)
  have "\<And>n. length (take n data) < 14" using True by simp
  then have "\<And>n. parse_report (take n data) = Inr []" by (rule parse_report_short)
  with run True parse_touch_error_iff show ?thesis by simp
next
  case False
  let ?f = "\<lambda>i. projr (parse_touch data (14 + (i * 8)))"
  let ?ts = "filter (\<lambda>t. t_state t > 0 \<or> t_size t > 0) (map ?f [0..<(length data - 14) div 8])"
  from False have len: "14 \<le> length data" by simp
  have run: "parse_report data = Inr ?ts" by (rule parse_report_eq [OF len])
  have "length ?ts \<le> length (map ?f [0..<(length data - 14) div 8])"
    by (rule length_filter_le)
  then have cnt: "length ?ts \<le> (length data - 14) div 8" by simp
  have inb: "\<forall>i. 14 \<le> length data \<and> i < (length data - 14) div 8
             \<longrightarrow> 14 + (i * 8) + 8 \<le> length data
                \<and> (\<exists>t. parse_touch data (14 + (i * 8)) = Inr t)"
    using slot_in_bounds parse_touch_in_bounds by blast
  have err: "\<forall>offset e. parse_touch data offset = Inl e
             \<longleftrightarrow> e = IndexError \<and> \<not> offset + 8 \<le> length data"
    using parse_touch_error_iff by blast
  have pre: "\<forall>n. \<exists>ts' rest. parse_report (take n data) = Inr ts' \<and> ?ts = ts' @ rest"
    using parse_report_take_prefix [OF len] run by simp
  from run cnt inb err pre show ?thesis by blast
qed

theorem parse_report_filter_witness:
  "parse_report [0, 0, 0, 0, 0, 0, 0, 0, 0, 0, 0, 0, 0, 0,
                 0xEE, 0x52, 0xF2, 10, 8, 0x9B, 0x47, 0x40,
                 0xEE, 0x52, 0xF2, 10, 8, 0xC0, 0x47, 0x0F]
     = Inr [\<lparr>t_id = 14, t_x = 750, t_y = 1522, t_major = 10,
             t_minor = 8, t_size = 27, t_orientation = 17, t_state = 4\<rparr>]
   \<and> parse_touch [0, 0, 0, 0, 0, 0, 0, 0, 0, 0, 0, 0, 0, 0,
                 0xEE, 0x52, 0xF2, 10, 8, 0x9B, 0x47, 0x40,
                 0xEE, 0x52, 0xF2, 10, 8, 0xC0, 0x47, 0x0F] 22
     = Inr \<lparr>t_id = 15, t_x = 750, t_y = 1522, t_major = 10,
             t_minor = 8, t_size = 0, t_orientation = 17, t_state = 0\<rparr>
   \<and> \<lparr>t_id = 15, t_x = 750, t_y = 1522, t_major = 10,
             t_minor = 8, t_size = 0, t_orientation = 17, t_state = 0\<rparr>
       \<notin> set [\<lparr>t_id = 14, t_x = 750, t_y = 1522, t_major = 10,
             t_minor = 8, t_size = 27, t_orientation = 17, t_state = 4\<rparr>]"
proof -
  let ?buf = "[0, 0, 0, 0, 0, 0, 0, 0, 0, 0, 0, 0, 0, 0,
               0xEE, 0x52, 0xF2, 10, 8, 0x9B, 0x47, 0x40,
               0xEE, 0x52, 0xF2, 10, 8, 0xC0, 0x47, 0x0F] :: 8 word list"
  let ?T = "\<lparr>t_id = 14, t_x = 750, t_y = 1522, t_major = 10,
             t_minor = 8, t_size = 27, t_orientation = 17, t_state = 4\<rparr>"
  let ?Z = "\<lparr>t_id = 15, t_x = 750, t_y = 1522, t_major = 10,
             t_minor = 8, t_size = 0, t_orientation = 17, t_state = 0\<rparr>"
  have p0: "parse_touch ?buf 14 = Inr ?T" by (simp add: parse_touch_def)
  have p1: "parse_touch ?buf 22 = Inr ?Z" by (simp add: parse_touch_def)
  have r: "[0..<(length ?buf - 14) div 8] = [0, 1]"
    by (simp add: numeral_2_eq_2)
  have run: "parse_report ?buf = Inr [?T]"
    unfolding parse_report_def Let_def r using p0 p1 by simp
  from parse_report_filter [OF run]
  have "14 \<le> length ?buf \<and> 1 < (length ?buf - 14) div 8
                \<and> parse_touch ?buf (14 + 8 * 1) = Inr ?Z
        \<longrightarrow> (?Z \<in> set [?T] \<longleftrightarrow> (t_state ?Z > 0 \<or> t_size ?Z > 0))"
    by blast
  with p1 have "?Z \<notin> set [?T]" by simp
  with run p1 show ?thesis by blast
qed

theorem parse_report_total_witness:
  "\<exists>ts. parse_report [0, 0, 0, 0, 0, 0, 0, 0, 0, 0, 0, 0, 0, 0,
                 0xEE, 0x52, 0xF2, 10, 8, 0x9B, 0x47, 0x40, 7, 7, 7] = Inr ts
      \<and> length ts \<le> 1
      \<and> (\<exists>t. parse_touch [0, 0, 0, 0, 0, 0, 0, 0, 0, 0, 0, 0, 0, 0,
                 0xEE, 0x52, 0xF2, 10, 8, 0x9B, 0x47, 0x40, 7, 7, 7] 14 = Inr t)
      \<and> (\<exists>ts' rest. parse_report (take 20 [0, 0, 0, 0, 0, 0, 0, 0, 0, 0, 0, 0, 0, 0,
                 0xEE, 0x52, 0xF2, 10, 8, 0x9B, 0x47, 0x40, 7, 7, 7]) = Inr ts'
            \<and> ts = ts' @ rest)"
proof -
  let ?buf = "[0, 0, 0, 0, 0, 0, 0, 0, 0, 0, 0, 0, 0, 0,
               0xEE, 0x52, 0xF2, 10, 8, 0x9B, 0x47, 0x40, 7, 7, 7] :: 8 word list"
  have l: "14 \<le> length ?buf \<and> 0 < (length ?buf - 14) div 8" by simp
  from parse_report_total [of ?buf]
  obtain ts where ts: "parse_report ?buf = Inr ts"
      "length ts \<le> (length ?buf - 14) div 8"
      "\<forall>i. 14 \<le> length ?buf \<and> i < (length ?buf - 14) div 8
             \<longrightarrow> 14 + (i * 8) + 8 \<le> length ?buf
                \<and> (\<exists>t. parse_touch ?buf (14 + (i * 8)) = Inr t)"
      "\<forall>n. \<exists>ts' rest. parse_report (take n ?buf) = Inr ts' \<and> ts = ts' @ rest"
    by blast
  from ts(2) have a: "length ts \<le> 1" by simp
  from ts(3) l have "\<exists>t. parse_touch ?buf (14 + (0 * 8)) = Inr t" by blast
  then have b: "\<exists>t. parse_touch ?buf 14 = Inr t" by simp
  from ts(4) have c: "\<exists>ts' rest. parse_report (take 20 ?buf) = Inr ts' \<and> ts = ts' @ rest"
    by blast
  from ts(1) a b c show ?thesis by blast
qed

subsection \<open>Float rounding: the exponent, monotonicity at 0.5, and the values used below\<close>

lemma pow2_powi: "pow2 k = 2 powi k"
  unfolding pow2_def power_int_def by (simp only: inverse_eq_divide power_one_over)

lemma pow2_pos: "0 < pow2 k"
  by (simp add: pow2_def)

lemma pow2_add: "pow2 (a + b) = pow2 a * pow2 b"
  unfolding pow2_powi by (rule power_int_add) simp

lemma pow2_Suc: "pow2 (k + 1) = 2 * pow2 k"
  using pow2_add [of k 1] by (simp add: pow2_def [of 1])

lemma pow2_mono: "a \<le> b \<Longrightarrow> pow2 a \<le> pow2 b"
  unfolding pow2_powi by (rule power_int_increasing) simp_all

lemma pow2_less_cancel: "pow2 a < pow2 b \<Longrightarrow> a < b"
  using pow2_mono [of b a] by (cases "a < b") auto

lemma expo_bounds: "0 < x \<Longrightarrow> pow2 (expo x) \<le> x \<and> x < pow2 (expo x + 1)"
proof (induction x rule: expo.induct)
  case (1 x)
  show ?case
  proof (cases "2 \<le> x")
    case True
    define k where "k = expo (x / 2)"
    from True "1.prems" have e: "expo x = k + 1" unfolding k_def by (subst expo.simps) simp
    from "1.IH"(1) True "1.prems"
    have "pow2 k \<le> x / 2 \<and> x / 2 < pow2 (k + 1)" unfolding k_def by simp
    then have "2 * pow2 k \<le> x \<and> x < 2 * pow2 (k + 1)" by linarith
    then show ?thesis unfolding e pow2_Suc .
  next
    case False
    show ?thesis
    proof (cases "x < 1")
      case True
      define k where "k = expo (x * 2) - 1"
      from True False "1.prems" have e: "expo x = k" unfolding k_def by (subst expo.simps) simp
      have k1: "expo (x * 2) = k + 1" unfolding k_def by simp
      from "1.IH"(2) True False "1.prems"
      have "pow2 (k + 1) \<le> x * 2 \<and> x * 2 < pow2 (k + 1 + 1)" unfolding k1 by simp
      then have "2 * pow2 k \<le> x * 2 \<and> x * 2 < 2 * pow2 (k + 1)" unfolding pow2_Suc .
      then have "pow2 k \<le> x \<and> x < pow2 (k + 1)" by linarith
      then show ?thesis unfolding e .
    next
      case F2: False
      with False "1.prems" have e: "expo x = 0" by (subst expo.simps) simp
      from F2 False show ?thesis unfolding e by (simp add: pow2_def)
    qed
  qed
qed

lemma round_half_even_ge: "of_int n \<le> y \<Longrightarrow> n \<le> round_half_even y"
proof -
  assume "of_int n \<le> y"
  then have "n \<le> \<lfloor>y\<rfloor>" by (simp add: le_floor_iff)
  moreover have "\<lfloor>y\<rfloor> \<le> round_half_even y" by (simp add: round_half_even_def Let_def)
  ultimately show ?thesis by simp
qed

lemma round_double_ge_half:
  assumes x: "1 / 2 \<le> x"
  shows "\<not> float_less (round_double x) (Finite (1 / 2))"
proof -
  from x have pos: "0 < x" by simp
  note b = expo_bounds [OF pos]
  have "pow2 (- 1) < pow2 (expo x + 1)" using b x by (simp add: pow2_def [of "- 1"])
  then have e1: "- 1 \<le> expo x" using pow2_less_cancel [of "- 1" "expo x + 1"] by simp
  then have e: "max (expo \<bar>x\<bar>) (- 1022) = expo x" using pos by simp
  let ?ulp = "pow2 (expo x - 52)"
  let ?r = "of_int (round_half_even (x / ?ulp)) * ?ulp :: real"
  have split: "pow2 (expo x) = pow2 52 * ?ulp" using pow2_add [of 52 "expo x - 52"] by simp
  have "pow2 52 * ?ulp \<le> x" using b split by simp
  then have "pow2 52 \<le> x / ?ulp" using pow2_pos [of "expo x - 52"] by (simp add: pos_le_divide_eq)
  then have "of_int (2 ^ 52) \<le> x / ?ulp" by (simp add: pow2_def [of 52])
  then have "2 ^ 52 \<le> round_half_even (x / ?ulp)" by (rule round_half_even_ge)
  then have "(of_int (2 ^ 52) :: real) \<le> of_int (round_half_even (x / ?ulp))"
    by (simp only: of_int_le_iff)
  then have "pow2 52 \<le> of_int (round_half_even (x / ?ulp))"
    by (simp add: pow2_def [of 52])
  then have "pow2 52 * ?ulp \<le> ?r"
    using pow2_pos [of "expo x - 52"] by (simp only: mult_le_cancel_right_pos)
  then have "pow2 (expo x) \<le> ?r" using split by simp
  moreover have "pow2 (- 1) \<le> pow2 (expo x)" using e1 by (rule pow2_mono)
  ultimately have r: "1 / 2 \<le> ?r" by (simp add: pow2_def [of "- 1"])
  have "round_double x = (if pow2 1024 \<le> \<bar>?r\<bar> then PosInf else Finite ?r)"
    using pos e by (simp add: round_double_def Let_def)
  with r show ?thesis by simp
qed

lemma float_le_iff: "float_le a b \<longleftrightarrow> \<not> float_less b a"
  by (cases a; cases b) auto

lemmas float_eval = float_sub_def round_double_def expo.simps pow2_def round_half_even_def Let_def

lemma double_0_5: "round_double (1 / 2) = Finite (1 / 2)"
  by (simp add: float_eval)

lemma double_0_4: "round_double (2 / 5) = Finite (3602879701896397 / 9007199254740992)"
  by (simp add: float_eval)

lemma double_0_1: "round_double (1 / 10) = Finite (3602879701896397 / 36028797018963968)"
  by (simp add: float_eval)

lemma double_0_55: "round_double (11 / 20) = Finite (2476979795053773 / 4503599627370496)"
  by (simp add: float_eval)

lemma double_0_6: "round_double (3 / 5) = Finite (5404319552844595 / 9007199254740992)"
  by (simp add: float_eval)

lemma double_0_9: "round_double (9 / 10) = Finite (8106479329266893 / 9007199254740992)"
  by (simp add: float_eval)

lemma float_sub_0_1_0: "float_sub (3602879701896397 / 36028797018963968) 0
    = Finite (3602879701896397 / 36028797018963968)"
  by (simp add: float_eval)

lemma float_sub_0_5_0_1: "float_sub (1 / 2) (3602879701896397 / 36028797018963968)
    = Finite (3602879701896397 / 9007199254740992)"
  by (simp add: float_eval)

lemma float_sub_0_6_0_1:
  "float_sub (5404319552844595 / 9007199254740992) (3602879701896397 / 36028797018963968)
    = Finite (1 / 2)"
  by (simp add: float_eval)

lemma float_sub_0_9_0_5: "float_sub (8106479329266893 / 9007199254740992) (1 / 2)
    = Finite (3602879701896397 / 9007199254740992)"
  by (simp add: float_eval)

lemma float_sub_0_5_0: "float_sub (1 / 2) 0 = Finite (1 / 2)"
  by (simp add: float_eval)

lemma float_sub_0_4_0: "float_sub (3602879701896397 / 9007199254740992) 0
    = Finite (3602879701896397 / 9007199254740992)"
  by (simp add: float_eval)

lemma float_sub_0_55_0_5: "float_sub (2476979795053773 / 4503599627370496) (1 / 2)
    = Finite (225179981368525 / 4503599627370496)"
  by (simp add: float_eval)

lemma float_sub_0_55_0: "float_sub (2476979795053773 / 4503599627370496) 0
    = Finite (2476979795053773 / 4503599627370496)"
  by (simp add: float_eval)

subsection \<open>C1: swipe classification\<close>

lemma cooldown_passed_exact:
  "1 / 2 \<le> now - t \<Longrightarrow> \<not> float_less (float_sub now t) (round_double 0.5)"
  using round_double_ge_half [of "now - t"] by (simp add: float_sub_def double_0_5)

text \<open>
  Claim C1. Take a call of \<^verbatim>\<open>detect_gesture\<close> with the cooldown passed (the test
  \<^verbatim>\<open>now - last_gesture_time < 0.5\<close> of the code is false), a non-empty touch list and an
  anchor \<open>(sx, sy, st)\<close>; let \<open>dx\<close>, \<open>dy\<close> be the floor-mean centroid of the
  touches minus the anchor position and \<open>elapsed\<close> the float \<^verbatim>\<open>now - start_time\<close>. If
  elapsed < 0.4 (the float 0.4) and |dx| > 200 and |dx| > 2 |dy|, the call returns
  \<^verbatim>\<open>'swipe_right'\<close> when dx > 0 and \<^verbatim>\<open>'swipe_left'\<close> otherwise, clears the anchor and
  sets \<^verbatim>\<open>last_gesture_time\<close> to \<open>now\<close>; if not, it returns \<^verbatim>\<open>None\<close>. So a gesture is
  returned if and only if the three conditions hold. In particular, with anchor
  (500, 1000, 0.0) and centroid (750, 1010) at the float 0.1 the call returns
  \<^verbatim>\<open>'swipe_right'\<close>, and with anchor (0, 0, 0.0) and centroid (250, 200) at 0.1 it
  returns \<^verbatim>\<open>None\<close> and leaves the state as it was.
\<close>

theorem detect_gesture_swipe:
  assumes cool: "\<not> float_less (float_sub now (last_gesture_time state)) (round_double 0.5)"
      and touches: "touches \<noteq> []"
      and anchor: "start_x state = Some sx" "start_y state = Some sy" "start_time state = Some st"
      and dx: "dx = sum_list (map t_x touches) div int (length touches) - sx"
      and dy: "dy = sum_list (map t_y touches) div int (length touches) - sy"
      and elapsed: "elapsed = float_sub now st"
  shows "(float_less elapsed (round_double 0.4) \<and> \<bar>dx\<bar> > 200 \<and> \<bar>dx\<bar> > 2 * \<bar>dy\<bar> \<longrightarrow>
            detect_gesture touches now state =
              Inr (Some (if dx > 0 then ''swipe_right'' else ''swipe_left''),
                   state\<lparr>start_x := None, start_y := None, start_time := None,
                          last_gesture_time := now\<rparr>))
       \<and> (\<not> (float_less elapsed (round_double 0.4) \<and> \<bar>dx\<bar> > 200 \<and> \<bar>dx\<bar> > 2 * \<bar>dy\<bar>) \<longrightarrow>
            (\<exists>state'. detect_gesture touches now state = Inr (None, state')))
       \<and> (\<forall>ts s t. round_double 0.1 = Finite t
              \<and> \<not> float_less (float_sub t (last_gesture_time s)) (round_double 0.5)
              \<and> ts \<noteq> []
              \<and> start_x s = Some 500 \<and> start_y s = Some 1000 \<and> start_time s = Some 0
              \<and> sum_list (map t_x ts) div int (length ts) = 750
              \<and> sum_list (map t_y ts) div int (length ts) = 1010
            \<longrightarrow> detect_gesture ts t s =
                  Inr (Some ''swipe_right'',
                       s\<lparr>start_x := None, start_y := None, start_time := None,
                          last_gesture_time := t\<rparr>))
       \<and> (\<forall>ts s t. round_double 0.1 = Finite t
              \<and> \<not> float_less (float_sub t (last_gesture_time s)) (round_double 0.5)
              \<and> ts \<noteq> []
              \<and> start_x s = Some 0 \<and> start_y s = Some 0 \<and> start_time s = Some 0
              \<and> sum_list (map t_x ts) div int (length ts) = 250
              \<and> sum_list (map t_y ts) div int (length ts) = 200
            \<longrightarrow> detect_gesture ts t s = Inr (None, s))"
proof (intro conjI)
  show "float_less elapsed (round_double 0.4) \<and> \<bar>dx\<bar> > 200 \<and> \<bar>dx\<bar> > 2 * \<bar>dy\<bar> \<longrightarrow>
            detect_gesture touches now state =
              Inr (Some (if dx > 0 then ''swipe_right'' else ''swipe_left''),
                   state\<lparr>start_x := None, start_y := None, start_time := None,
                          last_gesture_time := now\<rparr>)"
    using assms
    by (simp add: detect_gesture_def Let_def SWIPE_TIME_MAX_def SWIPE_THRESHOLD_def)
  show "\<not> (float_less elapsed (round_double 0.4) \<and> \<bar>dx\<bar> > 200 \<and> \<bar>dx\<bar> > 2 * \<bar>dy\<bar>) \<longrightarrow>
            (\<exists>state'. detect_gesture touches now state = Inr (None, state'))"
    using assms
    by (auto simp: detect_gesture_def Let_def SWIPE_TIME_MAX_def SWIPE_THRESHOLD_def)
  show "\<forall>ts s t. round_double 0.1 = Finite t
              \<and> \<not> float_less (float_sub t (last_gesture_time s)) (round_double 0.5)
              \<and> ts \<noteq> []
              \<and> start_x s = Some 500 \<and> start_y s = Some 1000 \<and> start_time s = Some 0
              \<and> sum_list (map t_x ts) div int (length ts) = 750
              \<and> sum_list (map t_y ts) div int (length ts) = 1010
            \<longrightarrow> detect_gesture ts t s =
                  Inr (Some ''swipe_right'',
                       s\<lparr>start_x := None, start_y := None, start_time := None,
                          last_gesture_time := t\<rparr>)"
  proof (intro allI impI)
    fix ts :: "Touch list" and s :: GestureState and t :: real
    assume h: "round_double 0.1 = Finite t
              \<and> \<not> float_less (float_sub t (last_gesture_time s)) (round_double 0.5)
              \<and> ts \<noteq> []
              \<and> start_x s = Some 500 \<and> start_y s = Some 1000 \<and> start_time s = Some 0
              \<and> sum_list (map t_x ts) div int (length ts) = 750
              \<and> sum_list (map t_y ts) div int (length ts) = 1010"
    then have t: "t = 3602879701896397 / 36028797018963968" by (simp add: double_0_1)
    from h show "detect_gesture ts t s =
                  Inr (Some ''swipe_right'',
                       s\<lparr>start_x := None, start_y := None, start_time := None,
                          last_gesture_time := t\<rparr>)"
      unfolding t
      by (simp add: detect_gesture_def Let_def SWIPE_TIME_MAX_def SWIPE_THRESHOLD_def
          double_0_4 float_sub_0_1_0)
  qed
  show "\<forall>ts s t. round_double 0.1 = Finite t
              \<and> \<not> float_less (float_sub t (last_gesture_time s)) (round_double 0.5)
              \<and> ts \<noteq> []
              \<and> start_x s = Some 0 \<and> start_y s = Some 0 \<and> start_time s = Some 0
              \<and> sum_list (map t_x ts) div int (length ts) = 250
              \<and> sum_list (map t_y ts) div int (length ts) = 200
            \<longrightarrow> detect_gesture ts t s = Inr (None, s)"
  proof (intro allI impI)
    fix ts :: "Touch list" and s :: GestureState and t :: real
    assume h: "round_double 0.1 = Finite t
              \<and> \<not> float_less (float_sub t (last_gesture_time s)) (round_double 0.5)
              \<and> ts \<noteq> []
              \<and> start_x s = Some 0 \<and> start_y s = Some 0 \<and> start_time s = Some 0
              \<and> sum_list (map t_x ts) div int (length ts) = 250
              \<and> sum_list (map t_y ts) div int (length ts) = 200"
    then have t: "t = 3602879701896397 / 36028797018963968" by (simp add: double_0_1)
    from h show "detect_gesture ts t s = Inr (None, s)"
      unfolding t
      by (simp add: detect_gesture_def Let_def SWIPE_TIME_MAX_def SWIPE_THRESHOLD_def
          double_0_4 float_sub_0_1_0)
  qed
qed

theorem detect_gesture_swipe_witness:
  "detect_gesture
     [\<lparr>t_id = 1, t_x = 750, t_y = 1010, t_major = 10, t_minor = 8,
       t_size = 27, t_orientation = 17, t_state = 4\<rparr>]
     (3602879701896397 / 36028797018963968)
     \<lparr>start_x = Some 500, start_y = Some 1000, start_time = Some 0,
      finger_count = 1, last_gesture_time = - 1\<rparr>
   = Inr (Some ''swipe_right'',
          \<lparr>start_x = None, start_y = None, start_time = None,
           finger_count = 1, last_gesture_time = 3602879701896397 / 36028797018963968\<rparr>)
   \<and> detect_gesture
     [\<lparr>t_id = 1, t_x = 300, t_y = 1000, t_major = 10, t_minor = 8,
       t_size = 27, t_orientation = 17, t_state = 4\<rparr>,
      \<lparr>t_id = 2, t_x = 201, t_y = 1021, t_major = 10, t_minor = 8,
       t_size = 27, t_orientation = 17, t_state = 4\<rparr>]
     (3602879701896397 / 36028797018963968)
     \<lparr>start_x = Some 500, start_y = Some 1000, start_time = Some 0,
      finger_count = 1, last_gesture_time = - 1\<rparr>
   = Inr (Some ''swipe_left'',
          \<lparr>start_x = None, start_y = None, start_time = None,
           finger_count = 1, last_gesture_time = 3602879701896397 / 36028797018963968\<rparr>)
   \<and> detect_gesture
     [\<lparr>t_id = 1, t_x = 250, t_y = 200, t_major = 10, t_minor = 8,
       t_size = 27, t_orientation = 17, t_state = 4\<rparr>]
     (3602879701896397 / 36028797018963968)
     \<lparr>start_x = Some 0, start_y = Some 0, start_time = Some 0,
      finger_count = 1, last_gesture_time = - 1\<rparr>
   = Inr (None, \<lparr>start_x = Some 0, start_y = Some 0, start_time = Some 0,
      finger_count = 1, last_gesture_time = - 1\<rparr>)
   \<and> (\<exists>state'. detect_gesture
     [\<lparr>t_id = 1, t_x = 800, t_y = 1000, t_major = 10, t_minor = 8,
       t_size = 27, t_orientation = 17, t_state = 4\<rparr>]
     (1 / 2)
     \<lparr>start_x = Some 500, start_y = Some 1000,
      start_time = Some (3602879701896397 / 36028797018963968),
      finger_count = 1, last_gesture_time = - 1\<rparr>
   = Inr (None, state'))"
proof -
  let ?t = "3602879701896397 / 36028797018963968 :: real"
  let ?s = "\<lparr>start_x = Some 500, start_y = Some 1000, start_time = Some (0::real),
      finger_count = 1, last_gesture_time = - 1\<rparr>"
  let ?z = "\<lparr>start_x = Some 0, start_y = Some 0, start_time = Some (0::real),
      finger_count = 1, last_gesture_time = - 1\<rparr>"
  let ?u = "\<lparr>start_x = Some 500, start_y = Some 1000, start_time = Some ?t,
      finger_count = 1, last_gesture_time = - 1\<rparr>"
  let ?a = "[\<lparr>t_id = 1, t_x = 750, t_y = 1010, t_major = 10, t_minor = 8,
       t_size = 27, t_orientation = 17, t_state = 4\<rparr>]"
  let ?b = "[\<lparr>t_id = 1, t_x = 300, t_y = 1000, t_major = 10, t_minor = 8,
       t_size = 27, t_orientation = 17, t_state = 4\<rparr>,
      \<lparr>t_id = 2, t_x = 201, t_y = 1021, t_major = 10, t_minor = 8,
       t_size = 27, t_orientation = 17, t_state = 4\<rparr>]"
  let ?c = "[\<lparr>t_id = 1, t_x = 250, t_y = 200, t_major = 10, t_minor = 8,
       t_size = 27, t_orientation = 17, t_state = 4\<rparr>]"
  let ?d = "[\<lparr>t_id = 1, t_x = 800, t_y = 1000, t_major = 10, t_minor = 8,
       t_size = 27, t_orientation = 17, t_state = 4\<rparr>]"
  have cs: "\<not> float_less (float_sub ?t (last_gesture_time ?s)) (round_double 0.5)"
    by (rule cooldown_passed_exact) simp
  have cz: "\<not> float_less (float_sub ?t (last_gesture_time ?z)) (round_double 0.5)"
    by (rule cooldown_passed_exact) simp
  have cu: "\<not> float_less (float_sub (1 / 2) (last_gesture_time ?u)) (round_double 0.5)"
    by (rule cooldown_passed_exact) simp
  have one: "detect_gesture ?a ?t ?s = Inr (Some ''swipe_right'',
          \<lparr>start_x = None, start_y = None, start_time = None,
           finger_count = 1, last_gesture_time = ?t\<rparr>)"
    using detect_gesture_swipe [OF cs, where touches = ?a and sx = 500 and sy = 1000
        and st = 0 and dx = 250 and dy = 10 and elapsed = "float_sub ?t 0", THEN conjunct1]
    by (simp add: float_sub_0_1_0 double_0_4)
  have two: "detect_gesture ?b ?t ?s = Inr (Some ''swipe_left'',
          \<lparr>start_x = None, start_y = None, start_time = None,
           finger_count = 1, last_gesture_time = ?t\<rparr>)"
    using detect_gesture_swipe [OF cs, where touches = ?b and sx = 500 and sy = 1000
        and st = 0 and dx = "- 250" and dy = 10 and elapsed = "float_sub ?t 0", THEN conjunct1]
    by (simp add: float_sub_0_1_0 double_0_4)
  have three: "detect_gesture ?c ?t ?z = Inr (None, ?z)"
    using detect_gesture_swipe [OF cz, where touches = ?c and sx = 0 and sy = 0
        and st = 0 and dx = 250 and dy = 200 and elapsed = "float_sub ?t 0",
        THEN conjunct2, THEN conjunct2, THEN conjunct2, rule_format, of ?t ?z ?c] cz
    by (simp add: double_0_1)
  have four: "\<exists>state'. detect_gesture ?d (1 / 2) ?u = Inr (None, state')"
    using detect_gesture_swipe [OF cu, where touches = ?d and sx = 500 and sy = 1000
        and st = ?t and dx = 300 and dy = 0 and elapsed = "float_sub (1 / 2) ?t",
        THEN conjunct2, THEN conjunct1]
    by (simp add: float_sub_0_5_0_1 double_0_4)
  from one two three four show ?thesis by blast
qed

subsection \<open>C5: the cooldown gate\<close>

text \<open>
  Claim C5. A call of \<^verbatim>\<open>detect_gesture\<close> in which the float
  \<^verbatim>\<open>now - last_gesture_time\<close> is below 0.5 returns \<^verbatim>\<open>None\<close> and leaves every field
  of the state as it was, whatever the touch list; with an empty touch list too, so
  the no-touch reset does not happen during the cooldown.
\<close>

theorem detect_gesture_cooldown:
  "float_less (float_sub now (last_gesture_time state)) (round_double 0.5) \<Longrightarrow>
     detect_gesture touches now state = Inr (None, state)
   \<and> detect_gesture [] now state = Inr (None, state)"
  by (simp add: detect_gesture_def)

theorem detect_gesture_cooldown_witness:
  "detect_gesture [] 10.25
       \<lparr>start_x = Some 5, start_y = Some 7, start_time = Some 9.75,
        finger_count = 2, last_gesture_time = 10\<rparr>
     = Inr (None, \<lparr>start_x = Some 5, start_y = Some 7, start_time = Some 9.75,
                   finger_count = 2, last_gesture_time = 10\<rparr>)
   \<and> detect_gesture
       [\<lparr>t_id = 1, t_x = 750, t_y = 7, t_major = 10, t_minor = 8,
         t_size = 27, t_orientation = 17, t_state = 4\<rparr>] 10.25
       \<lparr>start_x = Some 5, start_y = Some 7, start_time = Some 10.125,
        finger_count = 2, last_gesture_time = 10\<rparr>
     = Inr (None, \<lparr>start_x = Some 5, start_y = Some 7, start_time = Some 10.125,
                   finger_count = 2, last_gesture_time = 10\<rparr>)"
proof -
  let ?s = "\<lparr>start_x = Some 5, start_y = Some 7, start_time = Some (9.75::real),
        finger_count = 2, last_gesture_time = 10\<rparr>"
  let ?u = "\<lparr>start_x = Some 5, start_y = Some 7, start_time = Some (10.125::real),
        finger_count = 2, last_gesture_time = 10\<rparr>"
  have v: "float_sub 10.25 10 = Finite (1 / 4)" by (simp add: float_eval)
  have h: "float_less (float_sub 10.25 (last_gesture_time ?s)) (round_double 0.5)"
    using v by (simp add: double_0_5)
  have k: "float_less (float_sub 10.25 (last_gesture_time ?u)) (round_double 0.5)"
    using v by (simp add: double_0_5)
  from detect_gesture_cooldown [OF h] detect_gesture_cooldown [OF k]
  show ?thesis by blast
qed

subsection \<open>C6: re-basing a stale anchor\<close>

text \<open>
  Claim C6. Take a call with the cooldown passed, a non-empty touch list and an anchor
  \<open>(sx, sy, st)\<close>, in which no swipe qualifies; \<open>elapsed\<close> is the float
  \<^verbatim>\<open>now - start_time\<close>. If elapsed > 0.4 (the float 0.4), the anchor becomes the
  floor-mean centroid and \<open>now\<close>, and \<^verbatim>\<open>None\<close> is returned; if elapsed \<le> 0.4,
  \<^verbatim>\<open>None\<close> is returned and the state is as it was. In particular, anchor (0, 0, 0.0)
  with centroid (50, 0) at the float 0.5 re-anchors to (50, 0, 0.5), and the next call
  with centroid (260, 0) at the float 0.55 returns a swipe (\<^verbatim>\<open>'swipe_right'\<close>,
  dx = 210).
\<close>

theorem detect_gesture_rebase:
  assumes cool: "\<not> float_less (float_sub now (last_gesture_time state)) (round_double 0.5)"
      and touches: "touches \<noteq> []"
      and anchor: "start_x state = Some sx" "start_y state = Some sy" "start_time state = Some st"
      and avg_x: "avg_x = sum_list (map t_x touches) div int (length touches)"
      and avg_y: "avg_y = sum_list (map t_y touches) div int (length touches)"
      and elapsed: "elapsed = float_sub now st"
      and no_swipe: "\<not> (float_less elapsed (round_double 0.4)
                        \<and> \<bar>avg_x - sx\<bar> > 200 \<and> \<bar>avg_x - sx\<bar> > 2 * \<bar>avg_y - sy\<bar>)"
  shows "(float_less (round_double 0.4) elapsed \<longrightarrow>
            detect_gesture touches now state =
              Inr (None, state\<lparr>start_x := Some avg_x, start_y := Some avg_y,
                                start_time := Some now\<rparr>))
       \<and> (float_le elapsed (round_double 0.4) \<longrightarrow>
            detect_gesture touches now state = Inr (None, state))
       \<and> (\<forall>ts1 ts2 s t1 t2.
              round_double 0.5 = Finite t1 \<and> round_double 0.55 = Finite t2
              \<and> \<not> float_less (float_sub t1 (last_gesture_time s)) (round_double 0.5)
              \<and> \<not> float_less (float_sub t2 (last_gesture_time s)) (round_double 0.5)
              \<and> ts1 \<noteq> [] \<and> ts2 \<noteq> []
              \<and> start_x s = Some 0 \<and> start_y s = Some 0 \<and> start_time s = Some 0
              \<and> sum_list (map t_x ts1) div int (length ts1) = 50
              \<and> sum_list (map t_y ts1) div int (length ts1) = 0
              \<and> sum_list (map t_x ts2) div int (length ts2) = 260
              \<and> sum_list (map t_y ts2) div int (length ts2) = 0
            \<longrightarrow> detect_gesture ts1 t1 s =
                  Inr (None, s\<lparr>start_x := Some 50, start_y := Some 0, start_time := Some t1\<rparr>)
              \<and> detect_gesture ts2 t2
                    (s\<lparr>start_x := Some 50, start_y := Some 0, start_time := Some t1\<rparr>) =
                  Inr (Some ''swipe_right'',
                       s\<lparr>start_x := None, start_y := None, start_time := None,
                          last_gesture_time := t2\<rparr>))"
proof (intro conjI)
  show "float_less (round_double 0.4) elapsed \<longrightarrow>
            detect_gesture touches now state =
              Inr (None, state\<lparr>start_x := Some avg_x, start_y := Some avg_y,
                                start_time := Some now\<rparr>)"
    using assms
    by (auto simp: detect_gesture_def Let_def SWIPE_TIME_MAX_def SWIPE_THRESHOLD_def)
  show "float_le elapsed (round_double 0.4) \<longrightarrow>
            detect_gesture touches now state = Inr (None, state)"
    using assms
    by (auto simp: detect_gesture_def Let_def SWIPE_TIME_MAX_def SWIPE_THRESHOLD_def
        float_le_iff)
  show "\<forall>ts1 ts2 s t1 t2.
              round_double 0.5 = Finite t1 \<and> round_double 0.55 = Finite t2
              \<and> \<not> float_less (float_sub t1 (last_gesture_time s)) (round_double 0.5)
              \<and> \<not> float_less (float_sub t2 (last_gesture_time s)) (round_double 0.5)
              \<and> ts1 \<noteq> [] \<and> ts2 \<noteq> []
              \<and> start_x s = Some 0 \<and> start_y s = Some 0 \<and> start_time s = Some 0
              \<and> sum_list (map t_x ts1) div int (length ts1) = 50
              \<and> sum_list (map t_y ts1) div int (length ts1) = 0
              \<and> sum_list (map t_x ts2) div int (length ts2) = 260
              \<and> sum_list (map t_y ts2) div int (length ts2) = 0
            \<longrightarrow> detect_gesture ts1 t1 s =
                  Inr (None, s\<lparr>start_x := Some 50, start_y := Some 0, start_time := Some t1\<rparr>)
              \<and> detect_gesture ts2 t2
                    (s\<lparr>start_x := Some 50, start_y := Some 0, start_time := Some t1\<rparr>) =
                  Inr (Some ''swipe_right'',
                       s\<lparr>start_x := None, start_y := None, start_time := None,
                          last_gesture_time := t2\<rparr>)"
  proof (intro allI impI)
    fix ts1 ts2 :: "Touch list" and s :: GestureState and t1 t2 :: real
    assume h: "round_double 0.5 = Finite t1 \<and> round_double 0.55 = Finite t2
              \<and> \<not> float_less (float_sub t1 (last_gesture_time s)) (round_double 0.5)
              \<and> \<not> float_less (float_sub t2 (last_gesture_time s)) (round_double 0.5)
              \<and> ts1 \<noteq> [] \<and> ts2 \<noteq> []
              \<and> start_x s = Some 0 \<and> start_y s = Some 0 \<and> start_time s = Some 0
              \<and> sum_list (map t_x ts1) div int (length ts1) = 50
              \<and> sum_list (map t_y ts1) div int (length ts1) = 0
              \<and> sum_list (map t_x ts2) div int (length ts2) = 260
              \<and> sum_list (map t_y ts2) div int (length ts2) = 0"
    then have t1: "t1 = 1 / 2" by (simp add: double_0_5)
    from h have t2: "t2 = 2476979795053773 / 4503599627370496" by (simp add: double_0_55)
    from h have one: "detect_gesture ts1 t1 s =
                  Inr (None, s\<lparr>start_x := Some 50, start_y := Some 0, start_time := Some t1\<rparr>)"
      unfolding t1 t2
      by (simp add: detect_gesture_def Let_def SWIPE_TIME_MAX_def SWIPE_THRESHOLD_def
          double_0_4 double_0_5 double_0_55 float_sub_0_5_0)
    from h have two: "detect_gesture ts2 t2
                    (s\<lparr>start_x := Some 50, start_y := Some 0, start_time := Some t1\<rparr>) =
                  Inr (Some ''swipe_right'',
                       s\<lparr>start_x := None, start_y := None, start_time := None,
                          last_gesture_time := t2\<rparr>)"
      unfolding t1 t2
      by (simp add: detect_gesture_def Let_def SWIPE_TIME_MAX_def SWIPE_THRESHOLD_def
          double_0_4 double_0_5 double_0_55 float_sub_0_55_0_5)
    from one two show "detect_gesture ts1 t1 s =
                  Inr (None, s\<lparr>start_x := Some 50, start_y := Some 0, start_time := Some t1\<rparr>)
              \<and> detect_gesture ts2 t2
                    (s\<lparr>start_x := Some 50, start_y := Some 0, start_time := Some t1\<rparr>) =
                  Inr (Some ''swipe_right'',
                       s\<lparr>start_x := None, start_y := None, start_time := None,
                          last_gesture_time := t2\<rparr>)" ..
  qed
qed

theorem detect_gesture_rebase_witness:
  "detect_gesture
     [\<lparr>t_id = 1, t_x = 50, t_y = 0, t_major = 10, t_minor = 8,
       t_size = 27, t_orientation = 17, t_state = 4\<rparr>] (1 / 2)
     \<lparr>start_x = Some 0, start_y = Some 0, start_time = Some 0,
      finger_count = 1, last_gesture_time = 0\<rparr>
   = Inr (None, \<lparr>start_x = Some 50, start_y = Some 0, start_time = Some (1 / 2),
                 finger_count = 1, last_gesture_time = 0\<rparr>)
   \<and> detect_gesture
     [\<lparr>t_id = 1, t_x = 260, t_y = 0, t_major = 10, t_minor = 8,
       t_size = 27, t_orientation = 17, t_state = 4\<rparr>]
     (2476979795053773 / 4503599627370496)
     \<lparr>start_x = Some 50, start_y = Some 0, start_time = Some (1 / 2),
      finger_count = 1, last_gesture_time = 0\<rparr>
   = Inr (Some ''swipe_right'',
          \<lparr>start_x = None, start_y = None, start_time = None,
           finger_count = 1, last_gesture_time = 2476979795053773 / 4503599627370496\<rparr>)
   \<and> detect_gesture
     [\<lparr>t_id = 1, t_x = 50, t_y = 0, t_major = 10, t_minor = 8,
       t_size = 27, t_orientation = 17, t_state = 4\<rparr>]
     (3602879701896397 / 9007199254740992)
     \<lparr>start_x = Some 0, start_y = Some 0, start_time = Some 0,
      finger_count = 1, last_gesture_time = - 1\<rparr>
   = Inr (None, \<lparr>start_x = Some 0, start_y = Some 0, start_time = Some 0,
      finger_count = 1, last_gesture_time = - 1\<rparr>)
   \<and> detect_gesture
     [\<lparr>t_id = 1, t_x = 50, t_y = 0, t_major = 10, t_minor = 8,
       t_size = 27, t_orientation = 17, t_state = 4\<rparr>]
     (8106479329266893 / 9007199254740992)
     \<lparr>start_x = Some 0, start_y = Some 0, start_time = Some (1 / 2),
      finger_count = 1, last_gesture_time = 0\<rparr>
   = Inr (None, \<lparr>start_x = Some 0, start_y = Some 0, start_time = Some (1 / 2),
      finger_count = 1, last_gesture_time = 0\<rparr>)"
proof -
  let ?s = "\<lparr>start_x = Some 0, start_y = Some 0, start_time = Some (0::real),
      finger_count = 1, last_gesture_time = 0\<rparr>"
  let ?z = "\<lparr>start_x = Some 0, start_y = Some 0, start_time = Some (0::real),
      finger_count = 1, last_gesture_time = - 1\<rparr>"
  let ?u = "\<lparr>start_x = Some 0, start_y = Some 0, start_time = Some (1 / 2 :: real),
      finger_count = 1, last_gesture_time = 0\<rparr>"
  let ?t2 = "2476979795053773 / 4503599627370496 :: real"
  let ?t4 = "3602879701896397 / 9007199254740992 :: real"
  let ?t9 = "8106479329266893 / 9007199254740992 :: real"
  let ?a = "[\<lparr>t_id = 1, t_x = 50, t_y = 0, t_major = 10, t_minor = 8,
       t_size = 27, t_orientation = 17, t_state = 4\<rparr>]"
  let ?b = "[\<lparr>t_id = 1, t_x = 260, t_y = 0, t_major = 10, t_minor = 8,
       t_size = 27, t_orientation = 17, t_state = 4\<rparr>]"
  have c1: "\<not> float_less (float_sub (1 / 2) (last_gesture_time ?s)) (round_double 0.5)"
    by (rule cooldown_passed_exact) simp
  have c2: "\<not> float_less (float_sub ?t2 (last_gesture_time ?s)) (round_double 0.5)"
    by (rule cooldown_passed_exact) simp
  have c3: "\<not> float_less (float_sub ?t4 (last_gesture_time ?z)) (round_double 0.5)"
    by (rule cooldown_passed_exact) simp
  have c4: "\<not> float_less (float_sub ?t9 (last_gesture_time ?u)) (round_double 0.5)"
    by (rule cooldown_passed_exact) simp
  have both: "detect_gesture ?a (1 / 2) ?s =
        Inr (None, ?s\<lparr>start_x := Some 50, start_y := Some 0, start_time := Some (1 / 2)\<rparr>)
      \<and> detect_gesture ?b ?t2
          (?s\<lparr>start_x := Some 50, start_y := Some 0, start_time := Some (1 / 2)\<rparr>) =
        Inr (Some ''swipe_right'',
             ?s\<lparr>start_x := None, start_y := None, start_time := None,
                 last_gesture_time := ?t2\<rparr>)"
    using detect_gesture_rebase [OF c1, where touches = ?a and sx = 0 and sy = 0 and st = 0
        and avg_x = 50 and avg_y = 0 and elapsed = "float_sub (1 / 2) 0",
        THEN conjunct2, THEN conjunct2, rule_format, of "1 / 2" ?t2 ?s ?a ?b] c1 c2
    by (simp add: float_sub_0_5_0 double_0_4 double_0_5 double_0_55)
  have three: "detect_gesture ?a ?t4 ?z = Inr (None, ?z)"
    using detect_gesture_rebase [OF c3, where touches = ?a and sx = 0 and sy = 0 and st = 0
        and avg_x = 50 and avg_y = 0 and elapsed = "float_sub ?t4 0",
        THEN conjunct2, THEN conjunct1]
    by (simp add: float_sub_0_4_0 double_0_4)
  have four: "detect_gesture ?a ?t9 ?u = Inr (None, ?u)"
    using detect_gesture_rebase [OF c4, where touches = ?a and sx = 0 and sy = 0
        and st = "1 / 2" and avg_x = 50 and avg_y = 0 and elapsed = "float_sub ?t9 (1 / 2)",
        THEN conjunct2, THEN conjunct1]
    by (simp add: float_sub_0_9_0_5 double_0_4)
  from both three four show ?thesis by simp
qed

subsection \<open>C7: no-touch reset and anchor establishment\<close>

text \<open>
  Claim C7. Take a call of \<^verbatim>\<open>detect_gesture\<close> with the cooldown passed: the test
  \<^verbatim>\<open>now - last_gesture_time < 0.5\<close> of the code is false, which it is in particular
  when the exact difference is at least 0.5. With an empty touch list it clears the
  anchor (\<^verbatim>\<open>start_x\<close>, \<^verbatim>\<open>start_y\<close>, \<^verbatim>\<open>start_time\<close> are \<^verbatim>\<open>None\<close>), sets
  \<^verbatim>\<open>finger_count\<close> to 0 and returns \<^verbatim>\<open>None\<close>. With a non-empty touch list and no
  anchor it sets the anchor to the floor-mean centroid (the sums of x and of y, each
  floor-divided by the number of touches) and \<open>now\<close>, sets \<^verbatim>\<open>finger_count\<close> to the
  number of touches and returns \<^verbatim>\<open>None\<close>. So the first non-empty call after an empty
  one starts a new candidate at its own centroid.
\<close>

theorem detect_gesture_reset_and_anchor:
  assumes cool: "\<not> float_less (float_sub now (last_gesture_time state)) (round_double 0.5)
                 \<or> 0.5 \<le> now - last_gesture_time state"
  shows "(touches = [] \<longrightarrow>
            detect_gesture touches now state =
              Inr (None, state\<lparr>start_x := None, start_y := None, start_time := None,
                                finger_count := 0\<rparr>))
       \<and> (touches \<noteq> [] \<and> start_x state = None \<longrightarrow>
            detect_gesture touches now state =
              Inr (None, state\<lparr>start_x := Some (sum_list (map t_x touches) div int (length touches)),
                                start_y := Some (sum_list (map t_y touches) div int (length touches)),
                                start_time := Some now,
                                finger_count := int (length touches)\<rparr>))
       \<and> (\<forall>touches' now'. touches' \<noteq> []
              \<and> (\<not> float_less (float_sub now' (last_gesture_time state)) (round_double 0.5)
                   \<or> 0.5 \<le> now' - last_gesture_time state) \<longrightarrow>
            detect_gesture touches' now'
                (state\<lparr>start_x := None, start_y := None, start_time := None,
                        finger_count := 0\<rparr>) =
              Inr (None, state\<lparr>start_x := Some (sum_list (map t_x touches') div int (length touches')),
                                start_y := Some (sum_list (map t_y touches') div int (length touches')),
                                start_time := Some now',
                                finger_count := int (length touches')\<rparr>))"
proof -
  have gate: "\<And>n. \<not> float_less (float_sub n (last_gesture_time state)) (round_double 0.5)
                 \<or> 0.5 \<le> n - last_gesture_time state
      \<Longrightarrow> \<not> float_less (float_sub n (last_gesture_time state)) (round_double 0.5)"
    using cooldown_passed_exact by auto
  from gate [OF cool] have one: "touches = [] \<longrightarrow>
            detect_gesture touches now state =
              Inr (None, state\<lparr>start_x := None, start_y := None, start_time := None,
                                finger_count := 0\<rparr>)"
    by (simp add: detect_gesture_def Let_def)
  from gate [OF cool] have two: "touches \<noteq> [] \<and> start_x state = None \<longrightarrow>
            detect_gesture touches now state =
              Inr (None, state\<lparr>start_x := Some (sum_list (map t_x touches) div int (length touches)),
                                start_y := Some (sum_list (map t_y touches) div int (length touches)),
                                start_time := Some now,
                                finger_count := int (length touches)\<rparr>)"
    by (simp add: detect_gesture_def Let_def)
  have three: "\<forall>touches' now'. touches' \<noteq> []
              \<and> (\<not> float_less (float_sub now' (last_gesture_time state)) (round_double 0.5)
                   \<or> 0.5 \<le> now' - last_gesture_time state) \<longrightarrow>
            detect_gesture touches' now'
                (state\<lparr>start_x := None, start_y := None, start_time := None,
                        finger_count := 0\<rparr>) =
              Inr (None, state\<lparr>start_x := Some (sum_list (map t_x touches') div int (length touches')),
                                start_y := Some (sum_list (map t_y touches') div int (length touches')),
                                start_time := Some now',
                                finger_count := int (length touches')\<rparr>)"
  proof (intro allI impI)
    fix touches' :: "Touch list" and now' :: real
    assume h: "touches' \<noteq> []
              \<and> (\<not> float_less (float_sub now' (last_gesture_time state)) (round_double 0.5)
                   \<or> 0.5 \<le> now' - last_gesture_time state)"
    then have "\<not> float_less (float_sub now' (last_gesture_time state)) (round_double 0.5)"
      using gate by blast
    with h show "detect_gesture touches' now'
                (state\<lparr>start_x := None, start_y := None, start_time := None,
                        finger_count := 0\<rparr>) =
              Inr (None, state\<lparr>start_x := Some (sum_list (map t_x touches') div int (length touches')),
                                start_y := Some (sum_list (map t_y touches') div int (length touches')),
                                start_time := Some now',
                                finger_count := int (length touches')\<rparr>)"
      by (simp add: detect_gesture_def Let_def)
  qed
  from one two three show ?thesis by blast
qed

theorem detect_gesture_reset_and_anchor_witness:
  "detect_gesture [] 2
     \<lparr>start_x = Some 500, start_y = Some 1000, start_time = Some 1.875,
      finger_count = 3, last_gesture_time = 1\<rparr>
   = Inr (None, \<lparr>start_x = None, start_y = None, start_time = None,
                 finger_count = 0, last_gesture_time = 1\<rparr>)
   \<and> detect_gesture
     [\<lparr>t_id = 1, t_x = 300, t_y = 1000, t_major = 10, t_minor = 8,
       t_size = 27, t_orientation = 17, t_state = 4\<rparr>,
      \<lparr>t_id = 2, t_x = 201, t_y = 1021, t_major = 10, t_minor = 8,
       t_size = 27, t_orientation = 17, t_state = 4\<rparr>] 2.125
     \<lparr>start_x = None, start_y = None, start_time = None,
      finger_count = 0, last_gesture_time = 1\<rparr>
   = Inr (None, \<lparr>start_x = Some 250, start_y = Some 1010, start_time = Some 2.125,
                 finger_count = 2, last_gesture_time = 1\<rparr>)
   \<and> detect_gesture [] (5404319552844595 / 9007199254740992)
     \<lparr>start_x = Some 500, start_y = Some 1000, start_time = Some 0,
      finger_count = 3, last_gesture_time = 3602879701896397 / 36028797018963968\<rparr>
   = Inr (None, \<lparr>start_x = None, start_y = None, start_time = None,
                 finger_count = 0,
                 last_gesture_time = 3602879701896397 / 36028797018963968\<rparr>)"
proof -
  let ?s = "\<lparr>start_x = Some 500, start_y = Some 1000, start_time = Some (1.875::real),
      finger_count = 3, last_gesture_time = 1\<rparr>"
  let ?e = "\<lparr>start_x = None, start_y = None, start_time = None :: real option,
      finger_count = 0, last_gesture_time = 1\<rparr>"
  let ?u = "\<lparr>start_x = Some 500, start_y = Some 1000, start_time = Some (0::real),
      finger_count = 3, last_gesture_time = 3602879701896397 / 36028797018963968\<rparr>"
  let ?b = "[\<lparr>t_id = 1, t_x = 300, t_y = 1000, t_major = 10, t_minor = 8,
       t_size = 27, t_orientation = 17, t_state = 4\<rparr>,
      \<lparr>t_id = 2, t_x = 201, t_y = 1021, t_major = 10, t_minor = 8,
       t_size = 27, t_orientation = 17, t_state = 4\<rparr>]"
  have c1: "\<not> float_less (float_sub 2 (last_gesture_time ?s)) (round_double 0.5)
            \<or> 0.5 \<le> 2 - last_gesture_time ?s" by simp
  have c2: "\<not> float_less (float_sub 2.125 (last_gesture_time ?e)) (round_double 0.5)
            \<or> 0.5 \<le> 2.125 - last_gesture_time ?e" by simp
  have c3: "\<not> float_less (float_sub (5404319552844595 / 9007199254740992)
                (last_gesture_time ?u)) (round_double 0.5)
            \<or> 0.5 \<le> 5404319552844595 / 9007199254740992 - last_gesture_time ?u"
    by (simp add: float_sub_0_6_0_1 double_0_5)
  have one: "detect_gesture [] 2 ?s = Inr (None, ?e)"
    using detect_gesture_reset_and_anchor [OF c1, of "[]", THEN conjunct1] by simp
  have two: "detect_gesture ?b 2.125 ?e
      = Inr (None, \<lparr>start_x = Some 250, start_y = Some 1010, start_time = Some 2.125,
                 finger_count = 2, last_gesture_time = 1\<rparr>)"
    using detect_gesture_reset_and_anchor [OF c2, of ?b, THEN conjunct2, THEN conjunct1] by simp
  have three: "detect_gesture [] (5404319552844595 / 9007199254740992) ?u
      = Inr (None, \<lparr>start_x = None, start_y = None, start_time = None,
                 finger_count = 0,
                 last_gesture_time = 3602879701896397 / 36028797018963968\<rparr>)"
    using detect_gesture_reset_and_anchor [OF c3, of "[]", THEN conjunct1] by simp
  from one two three show ?thesis by blast
qed

subsection \<open>C10: the anchor fields form one optional triple\<close>

lemma detect_gesture_keeps_anchor_consistent:
  "anchor_consistent state \<Longrightarrow>
     \<exists>g state'. detect_gesture touches now state = Inr (g, state') \<and> anchor_consistent state'"
  by (auto simp: detect_gesture_def Let_def anchor_consistent_def split: option.splits)

lemma detect_calls_keep_anchor_consistent:
  "anchor_consistent state \<Longrightarrow>
     \<exists>state'. detect_calls calls state = Inr state' \<and> anchor_consistent state'"
proof (induction calls arbitrary: state)
  case Nil
  then show ?case by simp
next
  case (Cons c calls)
  obtain touches now where c: "c = (touches, now)" by (cases c)
  from Cons.prems obtain g s1 where
    s1: "detect_gesture touches now state = Inr (g, s1)" "anchor_consistent s1"
    using detect_gesture_keeps_anchor_consistent by blast
  from Cons.IH [OF s1(2)] show ?case using c s1(1) by simp
qed

text \<open>
  Claim C10. \<^verbatim>\<open>start_x\<close>, \<^verbatim>\<open>start_y\<close> and \<^verbatim>\<open>start_time\<close> are all \<^verbatim>\<open>None\<close> or all
  set in the state built by \<^verbatim>\<open>GestureState()\<close>; a call of \<^verbatim>\<open>detect_gesture\<close> on a
  state where this holds returns (it does not raise) and leaves a state where it
  holds; and so does every sequence of calls.
\<close>

theorem detect_gesture_anchor_triple:
  "anchor_consistent GestureState_init
   \<and> (anchor_consistent state \<longrightarrow>
        (\<exists>g state'. detect_gesture touches now state = Inr (g, state')
            \<and> anchor_consistent state'))
   \<and> (anchor_consistent state \<longrightarrow>
        (\<exists>state'. detect_calls calls state = Inr state' \<and> anchor_consistent state'))"
  using detect_gesture_keeps_anchor_consistent detect_calls_keep_anchor_consistent
  by (simp add: anchor_consistent_def GestureState_init_def)

theorem detect_gesture_anchor_triple_witness:
  "anchor_consistent GestureState_init
   \<and> (\<exists>g state'. detect_gesture
          [\<lparr>t_id = 1, t_x = 300, t_y = 1000, t_major = 10, t_minor = 8,
            t_size = 27, t_orientation = 17, t_state = 4\<rparr>] 1700000000
          GestureState_init = Inr (g, state')
        \<and> anchor_consistent state')
   \<and> (\<exists>state'. detect_calls
          [([\<lparr>t_id = 1, t_x = 300, t_y = 1000, t_major = 10, t_minor = 8,
              t_size = 27, t_orientation = 17, t_state = 4\<rparr>], 1700000000),
           ([\<lparr>t_id = 1, t_x = 600, t_y = 1000, t_major = 10, t_minor = 8,
              t_size = 27, t_orientation = 17, t_state = 4\<rparr>], 1700000000.125),
           ([], 1700000001)]
          GestureState_init = Inr state'
        \<and> anchor_consistent state')"
proof -
  let ?a = "[\<lparr>t_id = 1, t_x = 300, t_y = 1000, t_major = 10, t_minor = 8,
            t_size = 27, t_orientation = 17, t_state = 4\<rparr>]"
  let ?b = "[\<lparr>t_id = 1, t_x = 600, t_y = 1000, t_major = 10, t_minor = 8,
              t_size = 27, t_orientation = 17, t_state = 4\<rparr>]"
  let ?calls = "[(?a, 1700000000), (?b, 1700000000.125), ([], 1700000001 :: real)]"
  note T = detect_gesture_anchor_triple [of GestureState_init ?a 1700000000 ?calls]
  from T have i: "anchor_consistent GestureState_init" by blast
  with T show ?thesis by blast
qed

subsection \<open>C8: \<^verbatim>\<open>finger_count\<close> after re-basing\<close>

lemma float_sub_clock_values:
  "float_sub 1700000000 0 = Finite 1700000000"
  "float_sub 1700000000.5 0 = Finite 1700000000.5"
  "float_sub 1700000000.5 1700000000 = Finite (1 / 2)"
  by (simp_all add: float_eval)

text \<open>
  Claim C8 says that, whenever an anchor is present, \<^verbatim>\<open>finger_count\<close> is the number
  of touches seen by the call that last set the anchor, re-basing included. The branch
  that establishes an anchor (\<^verbatim>\<open>start_x is None\<close>) writes \<^verbatim>\<open>finger_count\<close>; the
  re-basing branch (\<^verbatim>\<open>elapsed > SWIPE_TIME_MAX\<close>) writes the three anchor fields and
  not \<^verbatim>\<open>finger_count\<close>. Evaluated on a fresh state: a call with one touch sets the
  anchor and \<^verbatim>\<open>finger_count = 1\<close>; half a second later a call with two touches
  re-bases the anchor to their centroid (110, 100), and \<^verbatim>\<open>finger_count\<close> is still 1.
\<close>

theorem detect_gesture_rebase_keeps_finger_count:
  "detect_gesture
     [\<lparr>t_id = 1, t_x = 100, t_y = 100, t_major = 10, t_minor = 8,
       t_size = 27, t_orientation = 17, t_state = 4\<rparr>] 1700000000
     GestureState_init
   = Inr (None, \<lparr>start_x = Some 100, start_y = Some 100, start_time = Some 1700000000,
                 finger_count = 1, last_gesture_time = 0\<rparr>)
   \<and> detect_gesture
     [\<lparr>t_id = 1, t_x = 100, t_y = 100, t_major = 10, t_minor = 8,
       t_size = 27, t_orientation = 17, t_state = 4\<rparr>,
      \<lparr>t_id = 2, t_x = 120, t_y = 100, t_major = 10, t_minor = 8,
       t_size = 27, t_orientation = 17, t_state = 4\<rparr>] 1700000000.5
     \<lparr>start_x = Some 100, start_y = Some 100, start_time = Some 1700000000,
      finger_count = 1, last_gesture_time = 0\<rparr>
   = Inr (None, \<lparr>start_x = Some 110, start_y = Some 100, start_time = Some 1700000000.5,
                 finger_count = 1, last_gesture_time = 0\<rparr>)"
  using float_sub_clock_values
  by (simp add: detect_gesture_def Let_def GestureState_init_def SWIPE_TIME_MAX_def
      SWIPE_THRESHOLD_def double_0_4 double_0_5)

end
